theory Spec2Isabelle
  imports Complex_Main
begin

chapter \<open>RIS control simulation: environment model and beam-sweep script\<close>

text \<open>
  A shallow embedding of \<^verbatim>\<open>environment.py\<close> (class \<^verbatim>\<open>RisProtocolEnv\<close> and
  \<^verbatim>\<open>ecdf\<close>) and of the script \<^verbatim>\<open>cb_bsw_flexible_vs_minimum_snr.py\<close>.

  Conventions of the embedding.
  \<^item> A numpy array of floats is a list of \<^typ>\<open>real\<close>, a complex array a list of
    \<^typ>\<open>complex\<close>; a two-dimensional array is a list of rows. The arrays that
    \<^verbatim>\<open>compute_afgain\<close> combines by broadcasting are kept as a shape and an entry function.
    Floating-point rounding, infinities and NaN are not modelled: every arithmetic
    operation is the exact operation on real or complex numbers.
  \<^item> An exception raised by the source is a value \<open>Inl e\<close> of the type
    \<open>error + 'a\<close>; a normal return is \<open>Inr v\<close>.
  \<^item> A \<^verbatim>\<open>for\<close> loop over a finite range is \<open>for_each\<close>, which threads the
    state of the loop through the body and stops at the first error.
  \<^item> Attributes that the classes inherit from the external \<^verbatim>\<open>scenario\<close> library
    (wavelength, element positions, loaded configuration, ...) are fields of records; their
    values are parameters of every statement.
\<close>

section \<open>Errors and loops\<close>

datatype error = UnboundLocalError | IndexError | ValueError

fun for_each :: "('i \<Rightarrow> 's \<Rightarrow> error + 's) \<Rightarrow> 'i list \<Rightarrow> 's \<Rightarrow> error + 's" where
  "for_each body [] s = Inr s"
| "for_each body (i # is) s =
     (case body i s of Inl e \<Rightarrow> Inl e | Inr s' \<Rightarrow> for_each body is s')"

section \<open>The beam-sweep search of the script\<close>

text \<open>
  \<^verbatim>\<open>np.zeros((r, c))\<close> and the assignment \<^verbatim>\<open>A[i, j] = v\<close>. The script only writes at
  indices inside the array it has just allocated.
\<close>

definition zeros2 :: "nat \<Rightarrow> nat \<Rightarrow> real list list" where
  "zeros2 r c = replicate r (replicate c 0)"

definition set2 :: "real list list \<Rightarrow> nat \<Rightarrow> nat \<Rightarrow> real \<Rightarrow> real list list" where
  "set2 A i j v = A[i := (A ! i)[j := v]]"

text \<open>
  \<^verbatim>\<open>np.argmax\<close>: the index of the first occurrence of the maximum; it raises
  \<^verbatim>\<open>ValueError\<close> on an empty array. \<open>argmax_from best bi i xs\<close> scans the rest
  \<open>xs\<close> of the array, which starts at index \<open>i\<close>, knowing the best value so far and its
  index.
\<close>

fun argmax_from :: "'a::linorder \<Rightarrow> nat \<Rightarrow> nat \<Rightarrow> 'a list \<Rightarrow> nat" where
  "argmax_from best bi i [] = bi"
| "argmax_from best bi i (x # xs) =
     (if best < x then argmax_from x i (Suc i) xs else argmax_from best bi (Suc i) xs)"

definition argmax :: "'a::linorder list \<Rightarrow> error + nat" where
  "argmax xs = (case xs of [] \<Rightarrow> Inl ValueError | x # xs' \<Rightarrow> Inr (argmax_from x 0 1 xs'))"

text \<open>Python's \<^verbatim>\<open>sum\<close> of a boolean array counts its true entries.\<close>

definition py_sum :: "bool list \<Rightarrow> nat" where
  "py_sum msk = sum_list (map of_bool msk)"

record sweep_state =
  rate_flex :: "real list list"
  n_configurations_flex :: "real list list"

text \<open>
  The body of the inner loop (lines 139 to 149) for threshold number \<open>ms\<close> and user
  \<open>uu\<close>. Reading row \<open>uu\<close> of \<^verbatim>\<open>snr_cb_noisy\<close> raises \<^verbatim>\<open>IndexError\<close> when the
  array has fewer rows; \<^verbatim>\<open>continue\<close> leaves both result arrays as they are.
\<close>

definition sweep_user ::
  "real list list \<Rightarrow> nat \<Rightarrow> real \<Rightarrow> nat \<Rightarrow> sweep_state \<Rightarrow> error + sweep_state" where
  "sweep_user snr_cb_noisy ms minimum_snr uu st =
     (if uu < length snr_cb_noisy then
        (let msk = map (\<lambda>s. minimum_snr \<le> s) (snr_cb_noisy ! uu) in
         if py_sum msk = 0 then Inr st
         else (case argmax msk of
                 Inl e \<Rightarrow> Inl e
               | Inr index \<Rightarrow>
                   Inr (st\<lparr>rate_flex := set2 (rate_flex st) ms uu (log 2 (1 + minimum_snr)),
                           n_configurations_flex :=
                             set2 (n_configurations_flex st) ms uu (real (index + 1))\<rparr>)))
      else Inl IndexError)"

text \<open>Lines 129 to 149: both result arrays start at zero, then the two nested loops run.\<close>

definition beam_sweep :: "real list list \<Rightarrow> nat \<Rightarrow> real list \<Rightarrow> error + sweep_state" where
  "beam_sweep snr_cb_noisy num_users minimum_snr_range =
     for_each
       (\<lambda>(ms, minimum_snr). for_each (sweep_user snr_cb_noisy ms minimum_snr) [0..<num_users])
       (enumerate 0 minimum_snr_range)
       \<lparr>rate_flex = zeros2 (length minimum_snr_range) num_users,
        n_configurations_flex = zeros2 (length minimum_snr_range) num_users\<rparr>"

text \<open>
  Vocabulary for the statements about the search: a row of noisy SNR values clears a
  threshold when one of its entries is at least the threshold; \<open>first_clear\<close> is the number
  of entries before the first such entry; \<open>dims r c A\<close> says that \<open>A\<close> is an array of
  \<open>r\<close> rows of \<open>c\<close> entries.
\<close>

definition clears :: "real list \<Rightarrow> real \<Rightarrow> bool" where
  "clears row t = (\<exists>s \<in> set row. t \<le> s)"

definition first_clear :: "real list \<Rightarrow> real \<Rightarrow> nat" where
  "first_clear row t = length (takeWhile (\<lambda>s. \<not> t \<le> s) row)"

definition dims :: "nat \<Rightarrow> nat \<Rightarrow> real list list \<Rightarrow> bool" where
  "dims r c A = (length A = r \<and> (\<forall>row \<in> set A. length row = c))"

definition sel_rate :: "real list \<Rightarrow> real \<Rightarrow> real" where
  "sel_rate row t = (if clears row t then log 2 (1 + t) else 0)"

definition sel_count :: "real list \<Rightarrow> real \<Rightarrow> real" where
  "sel_count row t = (if clears row t then real (first_clear row t + 1) else 0)"

section \<open>The rate accounting of the script\<close>

text \<open>
  The script's constants (lines 34 to 40): the period \<^verbatim>\<open>T = 1/14\<close>, the number of TTIs
  and the total time \<^verbatim>\<open>total_tau = T * n_ttis\<close>.
\<close>

definition T :: real where
  "T = 1 / 14"

definition n_ttis :: real where
  "n_ttis = 200"

definition total_tau :: real where
  "total_tau = T * n_ttis"

text \<open>Lines 167 to 172: the chain of comparisons on the name of the setup.\<close>

definition tau_setup :: "string \<Rightarrow> real" where
  "tau_setup setup =
     (if setup = ''ob-cc'' then T else if setup = ''ib-no'' then 2 * T else 3 * T)"

text \<open>
  Lines 175 to 178, entry by entry over the arrays of one row per threshold and one column
  per user. An elementwise product of two arrays is \<open>map2\<close>; the arrays multiplied here have
  the same shape, since \<open>tau_alg\<close> and \<open>prelog_term\<close> keep the shape of
  \<^verbatim>\<open>n_configurations_flex\<close>, which is allocated with the shape of \<^verbatim>\<open>rate_flex\<close>.
\<close>

definition tau_alg :: "real list list \<Rightarrow> real list list" where
  "tau_alg n_conf = map (map (\<lambda>n. (2 * n - 1) * T)) n_conf"

definition prelog_term :: "string \<Rightarrow> real list list \<Rightarrow> real list list" where
  "prelog_term setup n_conf =
     map (map (\<lambda>ta. 1 - (tau_setup setup + tau_setup setup + ta) / total_tau)) (tau_alg n_conf)"

definition rate_cb_bsw :: "string \<Rightarrow> sweep_state \<Rightarrow> real list list" where
  "rate_cb_bsw setup st =
     map2 (map2 (*)) (prelog_term setup (n_configurations_flex st)) (rate_flex st)"

text \<open>
  The accounting as the specification words it, for one entry: one period \<open>T\<close> per sweep
  step, this overhead and the fixed overhead of the setup taken from the total time, the
  remaining fraction multiplied by \<open>log2 (1 + threshold)\<close>. The text does not say whether the
  fixed overhead of a setup is \<open>tau_setup\<close> or the \<open>tau_setup + tau_setup\<close> of line 176, so
  the fixed overhead is a parameter here.
\<close>

definition spec_overhead :: "real \<Rightarrow> real" where
  "spec_overhead n = n * T"

definition spec_rate :: "real \<Rightarrow> real \<Rightarrow> real \<Rightarrow> real" where
  "spec_rate fixed n threshold =
     (total_tau - (spec_overhead n + fixed)) / total_tau * log 2 (1 + threshold)"

section \<open>The environment class\<close>

text \<open>
  The attributes of \<^verbatim>\<open>RisProtocolEnv\<close> that the methods below read. They are set by the
  base class \<^verbatim>\<open>Cluster\<close> of the external library: \<^verbatim>\<open>self.ris\<close> (the element counts,
  the spacing, the element positions \<^verbatim>\<open>el_pos\<close>, an array of three rows kept here as
  the list of its columns, and the loaded configuration \<^verbatim>\<open>actual_conf\<close>),
  \<^verbatim>\<open>self.bs\<close> and \<^verbatim>\<open>self.ue\<close> (antenna gain, and for the base station the unit vector
  \<^verbatim>\<open>pos.cartver\<close> of its position, an array of shape \<open>(1, 3)\<close>), the frequencies
  \<^verbatim>\<open>freqs\<close>, the number \<^verbatim>\<open>RBs\<close> of resource blocks and the scalars of the scenario.
\<close>

type_synonym vec3 = "real \<times> real \<times> real"

record ris_array =
  num_els :: nat
  num_els_h :: nat
  dist_els_h :: real
  el_pos :: "vec3 list"
  actual_conf :: "complex list"

record node =
  gain :: real
  pos_cartver :: vec3

record ris_protocol_env =
  wavelength :: real
  z_size :: real
  pl_exponent :: real
  dist_br :: real
  ref_dist :: real
  freqs :: "real list"
  RBs :: nat
  bs :: node
  ue :: node
  ris :: ris_array

text \<open>\<^verbatim>\<open>np.linalg.norm(x, axis=-1)\<close> on one row, and the product of a row with a column.\<close>

fun norm3 :: "vec3 \<Rightarrow> real" where
  "norm3 (x, y, z) = sqrt (x\<^sup>2 + y\<^sup>2 + z\<^sup>2)"

fun dot3 :: "vec3 \<Rightarrow> vec3 \<Rightarrow> real" where
  "dot3 (a, b, c) (x, y, z) = a * x + b * y + c * z"

subsection \<open>pointing\<close>

text \<open>
  Lines 133 to 137. \<^verbatim>\<open>k = np.arange(0, k_max)\<close> is the list of the first \<open>k_max\<close>
  naturals; the three direction arrays have one entry per \<open>k\<close>, and the result has one row
  \<open>z_size / z_pointing * (x_pointing, y_pointing, z_pointing)\<close> per \<open>k\<close>.
\<close>

definition x_pointing :: "ris_protocol_env \<Rightarrow> real \<Rightarrow> real \<Rightarrow> nat \<Rightarrow> real list" where
  "x_pointing env azimuth_angle elevation_angle k_max =
     map (\<lambda>k. real k * 2 * wavelength env / sqrt (real (num_els_h (ris env)))
                / dist_els_h (ris env) + cos azimuth_angle * sin elevation_angle)
       [0..<k_max]"

definition y_pointing :: "ris_protocol_env \<Rightarrow> real \<Rightarrow> real \<Rightarrow> nat \<Rightarrow> real list" where
  "y_pointing env azimuth_angle elevation_angle k_max =
     map (\<lambda>k. real k * 2 * wavelength env / sqrt (real (num_els_h (ris env)))
                / dist_els_h (ris env) + sin azimuth_angle * sin elevation_angle)
       [0..<k_max]"

definition z_pointing :: "real list \<Rightarrow> real list \<Rightarrow> real list" where
  "z_pointing xp yp = map2 (\<lambda>x y. sqrt (1 - x\<^sup>2 - y\<^sup>2)) xp yp"

definition pointing :: "ris_protocol_env \<Rightarrow> real \<Rightarrow> real \<Rightarrow> nat \<Rightarrow> vec3 list" where
  "pointing env azimuth_angle elevation_angle k_max =
     (let xp = x_pointing env azimuth_angle elevation_angle k_max;
          yp = y_pointing env azimuth_angle elevation_angle k_max;
          zp = z_pointing xp yp
      in map (\<lambda>(x, y, z). (z_size env / z * x, z_size env / z * y, z_size env / z * z))
           (zip xp (zip yp zp)))"

subsection \<open>pos2beta\<close>

text \<open>
  Lines 148 to 152, for each row of \<open>x\<close>: the path loss \<open>pl\<close> is built by three
  updates in place and turned back to linear scale. Python's \<^verbatim>\<open>**\<close> with a real exponent
  is \<open>powr\<close>.
\<close>

definition pos2beta :: "ris_protocol_env \<Rightarrow> vec3 list \<Rightarrow> real list" where
  "pos2beta env x =
     map (\<lambda>p.
       let pl = 10 * pl_exponent env * log 10 (dist_br env * norm3 p);
           pl = pl + - (gain (bs env) + gain (ue env));
           pl = pl + - 40 * log 10 (wavelength env / 4 / pi / ref_dist env);
           pl = pl + - 20 * pl_exponent env * log 10 (ref_dist env)
       in 10 powr (- pl / 10)) x"

text \<open>
  The path loss in dB as the specification writes it: one additive expression.
\<close>

definition pl_dB :: "ris_protocol_env \<Rightarrow> vec3 \<Rightarrow> real" where
  "pl_dB env p =
     10 * pl_exponent env * log 10 (dist_br env * norm3 p)
     - (gain (bs env) + gain (ue env))
     - 40 * log 10 (wavelength env / (4 * pi * ref_dist env))
     - 20 * pl_exponent env * log 10 (ref_dist env)"

subsection \<open>compute_afgain\<close>

text \<open>
  The arrays of lines 174 to 185 have up to three axes and are combined by numpy's
  broadcasting. An array is modelled here by its shape and its entry function; the entry
  function is only read at indices inside the shape.
\<close>

type_synonym 'a array2 = "(nat \<times> nat) \<times> (nat \<Rightarrow> nat \<Rightarrow> 'a)"

type_synonym 'a array3 = "(nat \<times> nat \<times> nat) \<times> (nat \<Rightarrow> nat \<Rightarrow> nat \<Rightarrow> 'a)"

text \<open>
  \<^verbatim>\<open>xs[np.newaxis]\<close> for a one-dimensional \<open>xs\<close> (shape \<open>(1, len)\<close>),
  \<^verbatim>\<open>A[np.newaxis]\<close> for a two-dimensional \<open>A\<close>, and \<^verbatim>\<open>.T\<close>, which reverses the
  axes. Broadcasting a one- or two-dimensional array against one with more axes prepends
  axes of size 1, which is what \<open>row_of\<close> and \<open>newaxis\<close> do.
\<close>

definition row_of :: "'a list \<Rightarrow> 'a array2" where
  "row_of xs = ((1, length xs), \<lambda>i j. xs ! j)"

fun transpose2 :: "'a array2 \<Rightarrow> 'a array2" where
  "transpose2 ((a0, a1), f) = ((a1, a0), \<lambda>i j. f j i)"

fun newaxis :: "'a array2 \<Rightarrow> 'a array3" where
  "newaxis ((a0, a1), f) = ((1, a0, a1), \<lambda>i j k. f j k)"

fun transpose3 :: "'a array3 \<Rightarrow> 'a array3" where
  "transpose3 ((a0, a1, a2), f) = ((a2, a1, a0), \<lambda>i j k. f k j i)"

text \<open>\<^verbatim>\<open>np.tile(A, (r0, r1, r2))\<close> for a three-dimensional \<open>A\<close>.\<close>

fun tile3 :: "'a array3 \<Rightarrow> nat \<times> nat \<times> nat \<Rightarrow> 'a array3" where
  "tile3 ((a0, a1, a2), f) (r0, r1, r2) =
     ((a0 * r0, a1 * r1, a2 * r2), \<lambda>i j k. f (i mod a0) (j mod a1) (k mod a2))"

text \<open>
  \<^verbatim>\<open>A.reshape((b0, b1, b2))\<close>: the entries in row-major order; \<^verbatim>\<open>ValueError\<close> when
  the two shapes do not have the same number of entries.
\<close>

fun reshape3 :: "'a array3 \<Rightarrow> nat \<times> nat \<times> nat \<Rightarrow> error + 'a array3" where
  "reshape3 ((a0, a1, a2), f) (b0, b1, b2) =
     (if a0 * a1 * a2 = b0 * b1 * b2
      then Inr ((b0, b1, b2),
                \<lambda>i j k. let flat = (i * b1 + j) * b2 + k
                         in f (flat div (a1 * a2)) (flat div a2 mod a1) (flat mod a2))
      else Inl ValueError)"

text \<open>
  Broadcasting. Two axes are compatible when their sizes are equal or one of them is 1;
  the result has the other size, and the axis of size 1 is read at index 0 throughout.
  Incompatible axes raise \<^verbatim>\<open>ValueError\<close>.
\<close>

definition bdim :: "nat \<Rightarrow> nat \<Rightarrow> nat option" where
  "bdim a b = (if a = b then Some a else if a = 1 then Some b else if b = 1 then Some a else None)"

definition bidx :: "nat \<Rightarrow> nat \<Rightarrow> nat" where
  "bidx d i = (if d = 1 then 0 else i)"

fun broadcast2 :: "('a \<Rightarrow> 'b \<Rightarrow> 'c) \<Rightarrow> 'a array2 \<Rightarrow> 'b array2 \<Rightarrow> error + 'c array2" where
  "broadcast2 op ((a0, a1), f) ((b0, b1), g) =
     (case bdim a0 b0 of
        None \<Rightarrow> Inl ValueError
      | Some c0 \<Rightarrow>
          (case bdim a1 b1 of
             None \<Rightarrow> Inl ValueError
           | Some c1 \<Rightarrow>
               Inr ((c0, c1), \<lambda>i j. op (f (bidx a0 i) (bidx a1 j)) (g (bidx b0 i) (bidx b1 j)))))"

fun broadcast3 :: "('a \<Rightarrow> 'b \<Rightarrow> 'c) \<Rightarrow> 'a array3 \<Rightarrow> 'b array3 \<Rightarrow> error + 'c array3" where
  "broadcast3 op ((a0, a1, a2), f) ((b0, b1, b2), g) =
     (case bdim a0 b0 of
        None \<Rightarrow> Inl ValueError
      | Some c0 \<Rightarrow>
          (case bdim a1 b1 of
             None \<Rightarrow> Inl ValueError
           | Some c1 \<Rightarrow>
               (case bdim a2 b2 of
                  None \<Rightarrow> Inl ValueError
                | Some c2 \<Rightarrow>
                    Inr ((c0, c1, c2),
                         \<lambda>i j k. op (f (bidx a0 i) (bidx a1 j) (bidx a2 k))
                                    (g (bidx b0 i) (bidx b1 j) (bidx b2 k))))))"

text \<open>Elementwise functions, and \<^verbatim>\<open>np.sum(..., axis=0)\<close>.\<close>

fun map_array2 :: "('a \<Rightarrow> 'b) \<Rightarrow> 'a array2 \<Rightarrow> 'b array2" where
  "map_array2 h (sh, f) = (sh, \<lambda>i j. h (f i j))"

fun map_array3 :: "('a \<Rightarrow> 'b) \<Rightarrow> 'a array3 \<Rightarrow> 'b array3" where
  "map_array3 h (sh, f) = (sh, \<lambda>i j k. h (f i j k))"

fun sum_axis0 :: "complex array3 \<Rightarrow> complex array2" where
  "sum_axis0 ((a0, a1, a2), f) = ((a1, a2), \<lambda>j k. \<Sum>i\<leftarrow>[0..<a0]. f i j k)"

text \<open>
  Python's slice \<^verbatim>\<open>xs[lo:hi]\<close> of a one-dimensional array for \<open>lo \<le> hi\<close>; it is cut
  at the end of the array. \<^verbatim>\<open>xs[lo:]\<close> is \<open>drop lo xs\<close>.
\<close>

definition slice :: "nat \<Rightarrow> nat \<Rightarrow> 'a list \<Rightarrow> 'a list" where
  "slice lo hi xs = take (hi - lo) (drop lo xs)"

definition speed_of_light :: real where
  "speed_of_light = 299792458"

text \<open>
  \<^verbatim>\<open>self.freqs[np.newaxis].T\<close>, of shape \<open>(F, 1)\<close> for \<open>F\<close> frequencies, as it
  broadcasts against an array of three axes: shape \<open>(1, F, 1)\<close>.
\<close>

definition freqs_col :: "ris_protocol_env \<Rightarrow> real array3" where
  "freqs_col env = newaxis (transpose2 (row_of (freqs env)))"

text \<open>
  The right-hand side of the assignments to \<^verbatim>\<open>phase_shift_br\<close> (lines 174 and 184) for
  \<open>w\<close> points. \<^verbatim>\<open>self.dist_br - self.bs.pos.cartver @ self.ris.el_pos\<close> has shape
  \<open>(1, E)\<close> for \<open>E\<close> element positions; with a new axis and transposed it has shape
  \<open>(E, 1, 1)\<close>, and the tile has shape \<open>(E, RBs, w)\<close>. The product with the
  frequencies raises \<^verbatim>\<open>ValueError\<close> when \<open>F\<close> and \<open>RBs\<close> are incompatible.
\<close>

definition br_expr :: "ris_protocol_env \<Rightarrow> nat \<Rightarrow> error + real array3" where
  "br_expr env w =
     broadcast3 (*) (freqs_col env)
       (tile3
          (transpose3 (newaxis
             ((1, length (el_pos (ris env))),
              \<lambda>i e. dist_br env - dot3 (pos_cartver (bs env)) (el_pos (ris env) ! e))))
          (1, RBs env, w))"

text \<open>
  The right-hand side of the assignments to \<^verbatim>\<open>phase_shift_ru\<close> (lines 178 and 183):
  the slice of \<^verbatim>\<open>pos_dist\<close> minus the transposed product of the slice of
  \<^verbatim>\<open>pos_versor\<close> with \<^verbatim>\<open>el_pos\<close>, with a new axis, reshaped to
  \<open>(num_els, 1, w)\<close> and multiplied by the frequencies.
\<close>

definition ru_expr ::
  "ris_protocol_env \<Rightarrow> real list \<Rightarrow> vec3 list \<Rightarrow> nat \<Rightarrow> error + real array3" where
  "ru_expr env dists versors w =
     (case broadcast2 (-) (row_of dists)
             (transpose2
                ((length versors, length (el_pos (ris env))),
                 \<lambda>j e. dot3 (versors ! j) (el_pos (ris env) ! e))) of
        Inl e \<Rightarrow> Inl e
      | Inr d \<Rightarrow>
          (case reshape3 (newaxis d) (num_els (ris env), 1, w) of
             Inl e \<Rightarrow> Inl e
           | Inr r \<Rightarrow> broadcast3 (*) (freqs_col env) r))"

text \<open>
  The right-hand side of the assignments into \<^verbatim>\<open>af_gain\<close> (lines 179 and 185): the sum
  of the two phase arrays, the exponential of every entry, the product with the
  configuration \<^verbatim>\<open>actual_conf[np.newaxis, np.newaxis].T\<close> of shape \<open>(C, 1, 1)\<close>, the
  sum along the first axis, the division by the element count and the squared modulus. The
  result has two axes: resource block and point.
\<close>

definition gain_expr ::
  "ris_protocol_env \<Rightarrow> real array3 \<Rightarrow> real array3 \<Rightarrow> error + real array2" where
  "gain_expr env ru br =
     (case broadcast3 (+) ru br of
        Inl e \<Rightarrow> Inl e
      | Inr S \<Rightarrow>
          (case broadcast3 (*)
                  (transpose3 (newaxis (row_of (actual_conf (ris env)))))
                  (map_array3
                     (\<lambda>s. exp (- \<i> * 2 * complex_of_real pi / complex_of_real speed_of_light
                                * complex_of_real s)) S) of
             Inl e \<Rightarrow> Inl e
           | Inr W \<Rightarrow>
               Inr (map_array2 (\<lambda>z. (cmod (z / of_nat (num_els (ris env))))\<^sup>2)
                      (sum_axis0 W))))"

text \<open>
  The assignment \<^verbatim>\<open>af_gain[lo:hi] = G\<close> of an array \<open>G\<close> of shape \<open>(a0, a1)\<close> into
  a slice of a one-dimensional array: numpy accepts it when \<open>a0 = 1\<close> and \<open>a1\<close> is the
  length of the slice or 1, and raises \<^verbatim>\<open>ValueError\<close> otherwise.
\<close>

fun assign_slice :: "real list \<Rightarrow> nat \<Rightarrow> nat \<Rightarrow> real array2 \<Rightarrow> error + real list" where
  "assign_slice af lo hi ((a0, a1), g) =
     (let len = min hi (length af) - lo
      in if a0 = 1 \<and> (a1 = len \<or> a1 = 1)
         then Inr (take lo af @ map (\<lambda>k. g 0 (bidx a1 k)) [0..<len] @ drop (lo + len) af)
         else Inl ValueError)"

text \<open>
  The local variables that the loop and the branch after it assign.
  \<^verbatim>\<open>phase_shift_ru\<close> has no value until its first assignment.
\<close>

record afgain_state =
  af_gain :: "real list"
  phase_shift_ru :: "real array3 option"
  phase_shift_br :: "real array3"

text \<open>The body of the loop (lines 178 and 179) for chunk \<open>i\<close> of \<open>n\<close> points.\<close>

definition afgain_iter ::
  "ris_protocol_env \<Rightarrow> nat \<Rightarrow> real list \<Rightarrow> vec3 list \<Rightarrow> nat \<Rightarrow> afgain_state
     \<Rightarrow> error + afgain_state" where
  "afgain_iter env n pos_dist pos_versor i st =
     (case ru_expr env (slice (i * n) ((i + 1) * n) pos_dist)
             (slice (i * n) ((i + 1) * n) pos_versor) n of
        Inl e \<Rightarrow> Inl e
      | Inr ru \<Rightarrow>
          (case gain_expr env ru (phase_shift_br st) of
             Inl e \<Rightarrow> Inl e
           | Inr G \<Rightarrow>
               (case assign_slice (af_gain st) (i * n) ((i + 1) * n) G of
                  Inl e \<Rightarrow> Inl e
                | Inr af \<Rightarrow> Inr (st\<lparr>af_gain := af, phase_shift_ru := Some ru\<rparr>))))"

text \<open>The branch for the last, partial chunk (lines 181 to 185).\<close>

definition afgain_rest ::
  "ris_protocol_env \<Rightarrow> nat \<Rightarrow> nat \<Rightarrow> real list \<Rightarrow> vec3 list \<Rightarrow> afgain_state
     \<Rightarrow> error + afgain_state" where
  "afgain_rest env n iter pos_dist pos_versor st =
     (let n2 = length pos_dist - iter * n
      in if 0 < n2 then
           (case ru_expr env (drop (iter * n) pos_dist) (drop (iter * n) pos_versor) n2 of
              Inl e \<Rightarrow> Inl e
            | Inr ru \<Rightarrow>
                (case br_expr env n2 of
                   Inl e \<Rightarrow> Inl e
                 | Inr br \<Rightarrow>
                     (case gain_expr env ru br of
                        Inl e \<Rightarrow> Inl e
                      | Inr G \<Rightarrow>
                          (case assign_slice (af_gain st) (iter * n) (length (af_gain st)) G of
                             Inl e \<Rightarrow> Inl e
                           | Inr af \<Rightarrow>
                               Inr (st\<lparr>af_gain := af, phase_shift_ru := Some ru,
                                       phase_shift_br := br\<rparr>)))))
         else Inr st)"

text \<open>
  Lines 164 to 187 with the chunk size \<open>n\<close> as a parameter. \<^verbatim>\<open>del\<close> of a local name
  that has no value raises \<^verbatim>\<open>UnboundLocalError\<close>; of the four names deleted at line 186
  only \<^verbatim>\<open>phase_shift_ru\<close>, the first of them, can be without one
  (\<^verbatim>\<open>phase_shift_br\<close> is assigned at line 174, before the loop). A point at the origin
  has distance 0: line 166 then fills its direction with NaN, where the division of HOL
  gives 0; the same holds for the division by an element count of 0.
\<close>

definition afgain_chunked :: "nat \<Rightarrow> ris_protocol_env \<Rightarrow> vec3 list \<Rightarrow> error + real list" where
  "afgain_chunked n env x =
     (let N = length x;
          pos_dist = map norm3 x;
          pos_versor = map2 (\<lambda>(a, b, c) d. (a / d, b / d, c / d)) x pos_dist;
          iter = N div n
      in case br_expr env n of
           Inl e \<Rightarrow> Inl e
         | Inr br \<Rightarrow>
             (case for_each (afgain_iter env n pos_dist pos_versor) [0..<iter]
                     \<lparr>af_gain = replicate N 0, phase_shift_ru = None, phase_shift_br = br\<rparr> of
                Inl e \<Rightarrow> Inl e
              | Inr st1 \<Rightarrow>
                  (case afgain_rest env n iter pos_dist pos_versor st1 of
                     Inl e \<Rightarrow> Inl e
                   | Inr st2 \<Rightarrow>
                       (case phase_shift_ru st2 of
                          None \<Rightarrow> Inl UnboundLocalError
                        | Some ru \<Rightarrow> Inr (af_gain st2)))))"

text \<open>The method itself: line 170 fixes the chunk size at \<^verbatim>\<open>int(1e6)\<close>.\<close>

definition compute_afgain :: "ris_protocol_env \<Rightarrow> vec3 list \<Rightarrow> error + real list" where
  "compute_afgain env x = afgain_chunked 1000000 env x"

text \<open>
  The evaluation of the whole point set in one batch, as the specification has it: the
  array expressions of lines 183 to 185 on all \<open>N\<close> points at once, assigned to the whole
  of \<^verbatim>\<open>af_gain\<close>.
\<close>

definition afgain_one_batch :: "ris_protocol_env \<Rightarrow> vec3 list \<Rightarrow> error + real list" where
  "afgain_one_batch env x =
     (let N = length x;
          pos_dist = map norm3 x;
          pos_versor = map2 (\<lambda>(a, b, c) d. (a / d, b / d, c / d)) x pos_dist
      in case ru_expr env pos_dist pos_versor N of
           Inl e \<Rightarrow> Inl e
         | Inr ru \<Rightarrow>
             (case br_expr env N of
                Inl e \<Rightarrow> Inl e
              | Inr br \<Rightarrow>
                  (case gain_expr env ru br of
                     Inl e \<Rightarrow> Inl e
                   | Inr G \<Rightarrow> assign_slice (replicate N 0) 0 N G)))"

text \<open>
  The shapes that the external library gives to the attributes: one frequency per resource
  block, one position and one configuration entry per RIS element. The number of resource
  blocks itself is the argument \<^verbatim>\<open>rbs\<close> of the constructor (1 by default) and is not
  fixed by this predicate.
\<close>

definition env_shapes :: "ris_protocol_env \<Rightarrow> bool" where
  "env_shapes env \<longleftrightarrow>
     length (freqs env) = RBs env \<and>
     length (el_pos (ris env)) = num_els (ris env) \<and>
     length (actual_conf (ris env)) = num_els (ris env)"

text \<open>
  The gain of one point at distance \<open>fst dv\<close> in direction \<open>snd dv\<close>, written as a sum
  over the elements, for an environment of one resource block.
\<close>

definition point_gain :: "ris_protocol_env \<Rightarrow> real \<times> vec3 \<Rightarrow> real" where
  "point_gain env dv =
     (cmod ((\<Sum>i\<leftarrow>[0..<num_els (ris env)].
               actual_conf (ris env) ! i
               * exp (- \<i> * 2 * complex_of_real pi / complex_of_real speed_of_light
                       * complex_of_real
                           (freqs env ! 0 * (fst dv - dot3 (snd dv) (el_pos (ris env) ! i))
                            + freqs env ! 0
                              * (dist_br env - dot3 (pos_cartver (bs env)) (el_pos (ris env) ! i)))))
            / of_nat (num_els (ris env))))\<^sup>2"

section \<open>The empirical distribution function\<close>

text \<open>
  \<^verbatim>\<open>np.unique(a, return_counts=True)\<close> returns the sorted distinct values of \<open>a\<close> and
  the number of occurrences of each; \<^verbatim>\<open>np.cumsum\<close> returns the running sums.
\<close>

definition np_unique :: "real list \<Rightarrow> real list \<times> nat list" where
  "np_unique a = (let x = remdups_adj (sort a) in (x, map (count_list a) x))"

fun cumsum_from :: "nat \<Rightarrow> nat list \<Rightarrow> nat list" where
  "cumsum_from acc [] = []"
| "cumsum_from acc (c # cs) = (acc + c) # cumsum_from (acc + c) cs"

definition cumsum :: "nat list \<Rightarrow> nat list" where
  "cumsum cs = cumsum_from 0 cs"

text \<open>
  Lines 220 to 225. The array library is numpy or cupy, chosen at import. With cupy
  \<^verbatim>\<open>np.asnumpy\<close> copies both results to the host, which changes no value; with numpy the
  attribute is missing, the \<^verbatim>\<open>AttributeError\<close> is caught and the same two arrays are
  returned. In both branches \<^verbatim>\<open>cusum[-1]\<close> raises \<^verbatim>\<open>IndexError\<close> on an empty array,
  which the handler does not catch. The function assigns to its local names only.
\<close>

datatype backend = Numpy | Cupy

definition asnumpy :: "'a list \<Rightarrow> 'a list" where
  "asnumpy xs = xs"

definition ecdf :: "backend \<Rightarrow> real list \<Rightarrow> error + (real list \<times> real list)" where
  "ecdf np a =
     (let (x, counts) = np_unique a;
          cusum = cumsum counts
      in case np of
           Cupy \<Rightarrow>
             (if cusum = [] then Inl IndexError
              else Inr (asnumpy x, asnumpy (map (\<lambda>c. real c / real (last cusum)) cusum)))
         | Numpy \<Rightarrow>
             (if cusum = [] then Inl IndexError
              else Inr (x, map (\<lambda>c. real c / real (last cusum)) cusum)))"

section \<open>The codebook of the script\<close>

text \<open>
  Lines 79 to 86, with \<open>N\<close> for \<^verbatim>\<open>env.ris.num_els\<close>. \<^verbatim>\<open>np.meshgrid(xs, ys)\<close> returns
  two arrays of \<open>length ys\<close> rows and \<open>length xs\<close> columns: every row of the first is
  \<open>xs\<close>, and row \<open>r\<close> of the second repeats \<open>ys ! r\<close>.
\<close>

definition fundamental_freq :: "nat \<Rightarrow> complex" where
  "fundamental_freq N = exp (- \<i> * 2 * complex_of_real pi / of_nat N)"

definition meshgrid :: "'a list \<Rightarrow> 'a list \<Rightarrow> 'a list list \<times> 'a list list" where
  "meshgrid xs ys = (replicate (length ys) xs, map (\<lambda>y. replicate (length xs) y) ys)"

definition DFT :: "nat \<Rightarrow> complex list list" where
  "DFT N = (let (J, K) = meshgrid [0..<N] [0..<N]
            in map2 (map2 (\<lambda>j k. fundamental_freq N ^ (j * k))) J K)"

definition DFT_norm :: "nat \<Rightarrow> complex list list" where
  "DFT_norm N = map (map (\<lambda>z. z / complex_of_real (sqrt (real N)))) (DFT N)"

text \<open>The squared Euclidean norm of a complex row and the inner product of two rows.\<close>

definition sq_norm :: "complex list \<Rightarrow> real" where
  "sq_norm row = (\<Sum>z\<leftarrow>row. (cmod z)\<^sup>2)"

definition inner_prod :: "complex list \<Rightarrow> complex list \<Rightarrow> complex" where
  "inner_prod u v = (\<Sum>(a, b)\<leftarrow>zip u v. a * cnj b)"

section \<open>The pilot noise of the script\<close>

text \<open>
  Lines 111 to 119 for one user and one configuration: \<open>noise\<close> is the entry of the
  array \<^verbatim>\<open>noise_\<close> drawn at line 104 and \<open>h_eq\<close> the entry of \<^verbatim>\<open>h_eq_cb\<close>. The
  draw itself, and with it every statement about a distribution, is outside the model.
\<close>

definition var :: "real \<Rightarrow> nat \<Rightarrow> real" where
  "var noise_power num_pilots = noise_power / real num_pilots / 2"

definition bsw_noise :: "real \<Rightarrow> nat \<Rightarrow> complex \<Rightarrow> complex" where
  "bsw_noise noise_power num_pilots noise =
     complex_of_real (sqrt (var noise_power num_pilots)) * noise"

definition snr_cb_noisy_entry :: "real \<Rightarrow> real \<Rightarrow> nat \<Rightarrow> complex \<Rightarrow> complex \<Rightarrow> real" where
  "snr_cb_noisy_entry tx_power noise_power num_pilots h_eq noise =
     (cmod (complex_of_real (sqrt tx_power) * h_eq + bsw_noise noise_power num_pilots noise))\<^sup>2
       / noise_power"

section \<open>An example environment\<close>

text \<open>
  A small environment for the instances below: one RIS element at the origin, one
  frequency, a room of height 5.
\<close>

definition env0 :: ris_protocol_env where
  "env0 = \<lparr>wavelength = 1 / 10, z_size = 5, pl_exponent = 2, dist_br = 20, ref_dist = 1,
            freqs = [1], RBs = 1,
            bs = \<lparr>gain = 2, pos_cartver = (1, 0, 0)\<rparr>,
            ue = \<lparr>gain = 2, pos_cartver = (0, 1, 0)\<rparr>,
            ris = \<lparr>num_els = 1, num_els_h = 1, dist_els_h = 1 / 20, el_pos = [(0, 0, 0)],
                   actual_conf = [1]\<rparr>\<rparr>"

section \<open>Properties\<close>

subsection \<open>Loops and small array facts\<close>

lemma for_each_append:
  "for_each body (xs @ ys) s =
     (case for_each body xs s of Inl e \<Rightarrow> Inl e | Inr s' \<Rightarrow> for_each body ys s')"
  by (induction xs arbitrary: s) (auto split: sum.splits)

subsection \<open>The beam-sweep search\<close>

lemma py_sum_Nil: "py_sum [] = 0"
  by (simp add: py_sum_def)

lemma py_sum_Cons: "py_sum (b # rest) = of_bool b + py_sum rest"
  by (simp add: py_sum_def)

lemma py_sum_zero_iff: "py_sum msk = 0 \<longleftrightarrow> True \<notin> set msk"
  by (induction msk) (auto simp: py_sum_Nil py_sum_Cons)

lemma argmax_from_True: "argmax_from True bi i xs = bi"
  by (induction xs arbitrary: i) auto

lemma argmax_from_False:
  "argmax_from False bi i xs = (if True \<in> set xs then i + length (takeWhile Not xs) else bi)"
  by (induction xs arbitrary: i) (auto simp: argmax_from_True)

lemma argmax_bool:
  "True \<in> set msk \<Longrightarrow> argmax msk = Inr (length (takeWhile Not msk))"
  by (cases msk) (auto simp: argmax_def argmax_from_True argmax_from_False)



lemma mask_has_True: "True \<in> set (map (\<lambda>s. t \<le> s) row) \<longleftrightarrow> clears row t"
  by (auto simp: clears_def)

lemma argmax_mask:
  assumes "clears row t"
  shows "argmax (map (\<lambda>s. t \<le> s) row) = Inr (first_clear row t)"
proof -
  have "length (takeWhile Not (map (\<lambda>s. t \<le> s) row)) = first_clear row t"
    by (simp add: takeWhile_map comp_def first_clear_def)
  moreover have "True \<in> set (map (\<lambda>s. t \<le> s) row)"
    using assms by (simp only: mask_has_True)
  ultimately show ?thesis
    using argmax_bool[of "map (\<lambda>s. t \<le> s) row"] by simp
qed

lemma clears_nth: "clears row t \<longleftrightarrow> (\<exists>c < length row. t \<le> row ! c)"
  unfolding clears_def by (metis in_set_conv_nth)

lemma first_clear_props:
  assumes "clears row t"
  shows "first_clear row t < length row" "t \<le> row ! first_clear row t"
    "\<And>c. c < first_clear row t \<Longrightarrow> \<not> t \<le> row ! c"
proof -
  from assms have ex: "\<exists>x \<in> set row. \<not> \<not> t \<le> x" by (simp add: clears_def)
  show k: "first_clear row t < length row"
    unfolding first_clear_def using ex
    by (metis linorder_not_le set_takeWhileD takeWhile_eq_take take_all_iff)
  then show "t \<le> row ! first_clear row t"
    unfolding first_clear_def using nth_length_takeWhile by auto
  fix c assume "c < first_clear row t"
  then show "\<not> t \<le> row ! c"
    unfolding first_clear_def by (metis nth_mem set_takeWhileD takeWhile_nth)
qed

lemma first_clear_le:
  assumes "i < length row" "t \<le> row ! i"
  shows "first_clear row t \<le> i"
proof (rule ccontr)
  assume "\<not> first_clear row t \<le> i"
  then have "i < first_clear row t" by simp
  moreover from assms have "clears row t" by (auto simp: clears_nth)
  ultimately show False using first_clear_props(3) assms(2) by blast
qed

lemma first_clear_unique:
  assumes "i < length row" "t \<le> row ! i" "\<forall>c < i. \<not> t \<le> row ! c"
  shows "first_clear row t = i"
proof -
  from assms have c: "clears row t" by (auto simp: clears_nth)
  have "first_clear row t \<le> i" using assms by (simp add: first_clear_le)
  moreover have "\<not> first_clear row t < i"
    using first_clear_props(2)[OF c] assms(3) by blast
  ultimately show ?thesis by simp
qed

lemma sweep_user_eq:
  assumes "uu < length snr"
  shows "sweep_user snr ms t uu st =
     Inr (if clears (snr ! uu) t
          then st\<lparr>rate_flex := set2 (rate_flex st) ms uu (log 2 (1 + t)),
                  n_configurations_flex :=
                    set2 (n_configurations_flex st) ms uu (real (first_clear (snr ! uu) t + 1))\<rparr>
          else st)"
proof (cases "clears (snr ! uu) t")
  case True
  then have "py_sum (map (\<lambda>s. t \<le> s) (snr ! uu)) \<noteq> 0"
    by (simp only: py_sum_zero_iff mask_has_True not_not)
  with True assms show ?thesis
    by (simp add: sweep_user_def Let_def argmax_mask)
next
  case False
  then have "py_sum (map (\<lambda>s. t \<le> s) (snr ! uu)) = 0"
    by (simp only: py_sum_zero_iff mask_has_True not_False_eq_True)
  with False assms show ?thesis
    by (simp add: sweep_user_def Let_def)
qed

lemma dims_nth: "dims r c A \<longleftrightarrow> length A = r \<and> (\<forall>i < r. length (A ! i) = c)"
  by (auto simp: dims_def all_set_conv_all_nth)

lemma dims_set2: "dims r c A \<Longrightarrow> dims r c (set2 A i j v)"
  by (cases "i < length A") (auto simp: dims_nth set2_def nth_list_update)

lemma nth_set2:
  "dims r c A \<Longrightarrow> i < r \<Longrightarrow> j < c \<Longrightarrow> i' < r \<Longrightarrow>
   set2 A i j v ! i' ! j' = (if i' = i \<and> j' = j then v else A ! i' ! j')"
  by (auto simp: dims_nth set2_def nth_list_update)

lemma dims_zeros2: "dims r c (zeros2 r c)"
  by (simp add: dims_nth zeros2_def)

lemma nth_zeros2: "i < r \<Longrightarrow> j < c \<Longrightarrow> zeros2 r c ! i ! j = 0"
  by (simp add: zeros2_def)


lemma inner_loop:
  assumes "ms < M" "U \<le> length snr" "k \<le> U"
    and "dims M U (rate_flex st)" "dims M U (n_configurations_flex st)"
  shows "\<exists>st'. for_each (sweep_user snr ms t) [0..<k] st = Inr st' \<and>
           dims M U (rate_flex st') \<and> dims M U (n_configurations_flex st') \<and>
           (\<forall>r < M. \<forall>c < U.
              rate_flex st' ! r ! c =
                (if r = ms \<and> c < k \<and> clears (snr ! c) t then log 2 (1 + t)
                 else rate_flex st ! r ! c) \<and>
              n_configurations_flex st' ! r ! c =
                (if r = ms \<and> c < k \<and> clears (snr ! c) t
                 then real (first_clear (snr ! c) t + 1)
                 else n_configurations_flex st ! r ! c))"
  using assms(3)
proof (induction k)
  case 0
  with assms show ?case by simp
next
  case (Suc k)
  then obtain st1 where st1: "for_each (sweep_user snr ms t) [0..<k] st = Inr st1"
    and d1: "dims M U (rate_flex st1)" "dims M U (n_configurations_flex st1)"
    and e1: "\<forall>r < M. \<forall>c < U.
              rate_flex st1 ! r ! c =
                (if r = ms \<and> c < k \<and> clears (snr ! c) t then log 2 (1 + t)
                 else rate_flex st ! r ! c) \<and>
              n_configurations_flex st1 ! r ! c =
                (if r = ms \<and> c < k \<and> clears (snr ! c) t
                 then real (first_clear (snr ! c) t + 1)
                 else n_configurations_flex st ! r ! c)"
    by auto
  from Suc.prems assms(2) have ku: "k < U" "k < length snr" by auto
  let ?st2 = "if clears (snr ! k) t
          then st1\<lparr>rate_flex := set2 (rate_flex st1) ms k (log 2 (1 + t)),
                  n_configurations_flex :=
                    set2 (n_configurations_flex st1) ms k (real (first_clear (snr ! k) t + 1))\<rparr>
          else st1"
  have run: "for_each (sweep_user snr ms t) [0..<Suc k] st = Inr ?st2"
    using st1 ku by (simp add: for_each_append sweep_user_eq)
  have d2: "dims M U (rate_flex ?st2)" "dims M U (n_configurations_flex ?st2)"
    using d1 by (auto simp: dims_set2)
  have e2: "\<forall>r < M. \<forall>c < U.
              rate_flex ?st2 ! r ! c =
                (if r = ms \<and> c < Suc k \<and> clears (snr ! c) t then log 2 (1 + t)
                 else rate_flex st ! r ! c) \<and>
              n_configurations_flex ?st2 ! r ! c =
                (if r = ms \<and> c < Suc k \<and> clears (snr ! c) t
                 then real (first_clear (snr ! c) t + 1)
                 else n_configurations_flex st ! r ! c)"
    using e1 d1 ku assms(1) by (auto simp: nth_set2 less_Suc_eq)
  from run d2 e2 show ?case by blast
qed


lemma outer_loop:
  assumes "U \<le> length snr" "k \<le> length ts"
    and "dims (length ts) U (rate_flex st)" "dims (length ts) U (n_configurations_flex st)"
    and "\<forall>r < length ts. \<forall>c < U.
           rate_flex st ! r ! c = 0 \<and> n_configurations_flex st ! r ! c = 0"
  shows "\<exists>st'. for_each (\<lambda>(ms, minimum_snr). for_each (sweep_user snr ms minimum_snr) [0..<U])
                  (zip [0..<k] (take k ts)) st = Inr st' \<and>
           dims (length ts) U (rate_flex st') \<and> dims (length ts) U (n_configurations_flex st') \<and>
           (\<forall>r < length ts. \<forall>c < U.
              rate_flex st' ! r ! c =
                (if r < k then sel_rate (snr ! c) (ts ! r) else 0) \<and>
              n_configurations_flex st' ! r ! c =
                (if r < k then sel_count (snr ! c) (ts ! r) else 0))"
  using assms(2)
proof (induction k)
  case 0
  with assms show ?case by simp
next
  case (Suc k)
  let ?body = "\<lambda>(ms, minimum_snr). for_each (sweep_user snr ms minimum_snr) [0..<U]"
  from Suc obtain st1 where st1: "for_each ?body (zip [0..<k] (take k ts)) st = Inr st1"
    and d1: "dims (length ts) U (rate_flex st1)" "dims (length ts) U (n_configurations_flex st1)"
    and e1: "\<forall>r < length ts. \<forall>c < U.
              rate_flex st1 ! r ! c =
                (if r < k then sel_rate (snr ! c) (ts ! r) else 0) \<and>
              n_configurations_flex st1 ! r ! c =
                (if r < k then sel_count (snr ! c) (ts ! r) else 0)"
    by auto
  from Suc.prems have k: "k < length ts" by simp
  from inner_loop[OF k assms(1) le_refl d1, of "ts ! k"]
  obtain st2 where st2: "for_each (sweep_user snr k (ts ! k)) [0..<U] st1 = Inr st2"
    and d2: "dims (length ts) U (rate_flex st2)" "dims (length ts) U (n_configurations_flex st2)"
    and e2: "\<forall>r < length ts. \<forall>c < U.
              rate_flex st2 ! r ! c =
                (if r = k \<and> c < U \<and> clears (snr ! c) (ts ! k) then log 2 (1 + ts ! k)
                 else rate_flex st1 ! r ! c) \<and>
              n_configurations_flex st2 ! r ! c =
                (if r = k \<and> c < U \<and> clears (snr ! c) (ts ! k)
                 then real (first_clear (snr ! c) (ts ! k) + 1)
                 else n_configurations_flex st1 ! r ! c)"
    by blast
  have z: "zip [0..<Suc k] (take (Suc k) ts) = zip [0..<k] (take k ts) @ [(k, ts ! k)]"
    using k by (simp add: take_Suc_conv_app_nth)
  have run: "for_each ?body (zip [0..<Suc k] (take (Suc k) ts)) st = Inr st2"
    unfolding z for_each_append using st1 st2 by simp
  have e3: "\<forall>r < length ts. \<forall>c < U.
              rate_flex st2 ! r ! c =
                (if r < Suc k then sel_rate (snr ! c) (ts ! r) else 0) \<and>
              n_configurations_flex st2 ! r ! c =
                (if r < Suc k then sel_count (snr ! c) (ts ! r) else 0)"
  proof (intro allI impI)
    fix r c assume rc: "r < length ts" "c < U"
    consider "r < k" | "r = k" | "k < r" by linarith
    then show "rate_flex st2 ! r ! c =
                (if r < Suc k then sel_rate (snr ! c) (ts ! r) else 0) \<and>
              n_configurations_flex st2 ! r ! c =
                (if r < Suc k then sel_count (snr ! c) (ts ! r) else 0)"
    proof cases
      case 1
      with rc e1 e2 show ?thesis by simp
    next
      case 2
      with rc e1 e2 show ?thesis
        by (simp add: sel_rate_def sel_count_def)
    next
      case 3
      with rc e1 e2 show ?thesis by simp
    qed
  qed
  from run d2 e3 show ?case by blast
qed

lemma beam_sweep_entries:
  assumes "num_users \<le> length snr"
  shows "\<exists>st. beam_sweep snr num_users ts = Inr st \<and>
           dims (length ts) num_users (rate_flex st) \<and>
           dims (length ts) num_users (n_configurations_flex st) \<and>
           (\<forall>ms < length ts. \<forall>uu < num_users.
              rate_flex st ! ms ! uu = sel_rate (snr ! uu) (ts ! ms) \<and>
              n_configurations_flex st ! ms ! uu = sel_count (snr ! uu) (ts ! ms))"
proof -
  let ?st0 = "\<lparr>rate_flex = zeros2 (length ts) num_users,
        n_configurations_flex = zeros2 (length ts) num_users\<rparr>"
  have "\<forall>r < length ts. \<forall>c < num_users.
           rate_flex ?st0 ! r ! c = 0 \<and> n_configurations_flex ?st0 ! r ! c = 0"
    by (simp add: nth_zeros2)
  from outer_loop[OF assms le_refl _ _ this]
  obtain st' where "for_each
       (\<lambda>(ms, minimum_snr). for_each (sweep_user snr ms minimum_snr) [0..<num_users])
       (zip [0..<length ts] (take (length ts) ts)) ?st0 = Inr st'"
    and "dims (length ts) num_users (rate_flex st')"
    and "dims (length ts) num_users (n_configurations_flex st')"
    and "\<forall>r < length ts. \<forall>c < num_users.
              rate_flex st' ! r ! c = sel_rate (snr ! c) (ts ! r) \<and>
              n_configurations_flex st' ! r ! c = sel_count (snr ! c) (ts ! r)"
    by (auto simp: dims_zeros2)
  then show ?thesis
    by (intro exI[of _ st']) (simp add: beam_sweep_def enumerate_eq_zip)
qed


text \<open>
  Claim C2. When \<^verbatim>\<open>snr_cb_noisy\<close> has one row per user, the search returns without an
  error, and for every threshold number \<open>ms\<close> and user \<open>uu\<close>: if \<open>i\<close> is the first
  (lowest) configuration index whose noisy SNR is at least the threshold, the recorded number
  of configurations is \<open>i + 1\<close> and the recorded rate is \<open>log2 (1 + threshold)\<close>; if no
  configuration reaches the threshold, both recorded values are zero.
\<close>

theorem beam_sweep_first_clearing:
  assumes "length snr_cb_noisy = num_users"
  shows "\<exists>st. beam_sweep snr_cb_noisy num_users minimum_snr_range = Inr st \<and>
           (\<forall>ms < length minimum_snr_range. \<forall>uu < num_users.
              (\<forall>i. i < length (snr_cb_noisy ! uu) \<and>
                   minimum_snr_range ! ms \<le> snr_cb_noisy ! uu ! i \<and>
                   (\<forall>c < i. \<not> minimum_snr_range ! ms \<le> snr_cb_noisy ! uu ! c) \<longrightarrow>
                   n_configurations_flex st ! ms ! uu = real i + 1 \<and>
                   rate_flex st ! ms ! uu = log 2 (1 + minimum_snr_range ! ms)) \<and>
              ((\<forall>c < length (snr_cb_noisy ! uu).
                   \<not> minimum_snr_range ! ms \<le> snr_cb_noisy ! uu ! c) \<longrightarrow>
                   n_configurations_flex st ! ms ! uu = 0 \<and> rate_flex st ! ms ! uu = 0))"
proof -
  from assms have "num_users \<le> length snr_cb_noisy" by simp
  from beam_sweep_entries[OF this, of minimum_snr_range]
  obtain st where run: "beam_sweep snr_cb_noisy num_users minimum_snr_range = Inr st"
    and ent: "\<forall>ms < length minimum_snr_range. \<forall>uu < num_users.
              rate_flex st ! ms ! uu = sel_rate (snr_cb_noisy ! uu) (minimum_snr_range ! ms) \<and>
              n_configurations_flex st ! ms ! uu =
                sel_count (snr_cb_noisy ! uu) (minimum_snr_range ! ms)"
    by blast
  have "\<And>row t i. i < length row \<Longrightarrow> t \<le> row ! i \<Longrightarrow> (\<forall>c < i. \<not> t \<le> row ! c) \<Longrightarrow>
          sel_count row t = real i + 1 \<and> sel_rate row t = log 2 (1 + t)"
    by (auto simp: sel_count_def sel_rate_def first_clear_unique clears_nth)
  moreover have "\<And>row t. (\<forall>c < length row. \<not> t \<le> row ! c) \<Longrightarrow>
          sel_count row t = 0 \<and> sel_rate row t = 0"
    by (auto simp: sel_count_def sel_rate_def clears_nth)
  ultimately show ?thesis
    using run ent by (intro exI[of _ st] conjI allI impI) auto
qed

text \<open>
  An instance: two users and the threshold 2. The first user's SNR row reaches 2 first at
  index 1; the second user's row never does.
\<close>

theorem beam_sweep_first_clearing_witness:
  "\<exists>st. beam_sweep [[1/2, 3, 2, 7], [1, 1, 1, 1]] 2 [2] = Inr st \<and>
     n_configurations_flex st ! 0 ! 0 = 2 \<and> rate_flex st ! 0 ! 0 = log 2 3 \<and>
     n_configurations_flex st ! 0 ! 1 = 0 \<and> rate_flex st ! 0 ! 1 = 0"
proof -
  have len: "length [[1/2, 3, 2, 7], [1, 1, 1, 1::real]] = 2" by simp
  from beam_sweep_first_clearing[OF len, of "[2]"]
  obtain st where run: "beam_sweep [[1/2, 3, 2, 7], [1, 1, 1, 1]] 2 [2] = Inr st"
    and ent: "\<forall>ms < length [2::real]. \<forall>uu < (2::nat).
              (\<forall>i. i < length ([[1/2, 3, 2, 7], [1, 1, 1, 1::real]] ! uu) \<and>
                   [2] ! ms \<le> [[1/2, 3, 2, 7], [1, 1, 1, 1::real]] ! uu ! i \<and>
                   (\<forall>c < i. \<not> [2] ! ms \<le> [[1/2, 3, 2, 7], [1, 1, 1, 1::real]] ! uu ! c) \<longrightarrow>
                   n_configurations_flex st ! ms ! uu = real i + 1 \<and>
                   rate_flex st ! ms ! uu = log 2 (1 + [2] ! ms)) \<and>
              ((\<forall>c < length ([[1/2, 3, 2, 7], [1, 1, 1, 1::real]] ! uu).
                   \<not> [2] ! ms \<le> [[1/2, 3, 2, 7], [1, 1, 1, 1::real]] ! uu ! c) \<longrightarrow>
                   n_configurations_flex st ! ms ! uu = 0 \<and> rate_flex st ! ms ! uu = 0)"
    by blast
  from ent[rule_format, of 0 0, THEN conjunct1, rule_format, of 1]
  have a: "n_configurations_flex st ! 0 ! 0 = 2 \<and> rate_flex st ! 0 ! 0 = log 2 3"
    by (simp add: less_Suc_eq)
  from ent[rule_format, of 0 1, THEN conjunct2]
  have b: "n_configurations_flex st ! 0 ! 1 = 0 \<and> rate_flex st ! 0 ! 1 = 0"
    by (simp add: less_Suc_eq eval_nat_numeral)
  from run a b show ?thesis by blast
qed

text \<open>
  Claim C5, amended. For a fixed row of noisy SNR values and two thresholds
  \<open>t1 \<le> t2\<close> of the range, the number of configurations recorded at \<open>t2\<close> is at least the
  number recorded at \<open>t1\<close>, provided some configuration reaches \<open>t2\<close>. Without the proviso
  the statement fails: the entry of a threshold that no configuration reaches stays at the
  initial zero (the \<^verbatim>\<open>continue\<close> of line 142).
\<close>

theorem sweep_count_monotone_on_success:
  assumes "length snr_cb_noisy = num_users"
    and "beam_sweep snr_cb_noisy num_users minimum_snr_range = Inr st"
    and "ms1 < length minimum_snr_range" "ms2 < length minimum_snr_range" "uu < num_users"
    and "minimum_snr_range ! ms1 \<le> minimum_snr_range ! ms2"
    and "\<exists>c < length (snr_cb_noisy ! uu). minimum_snr_range ! ms2 \<le> snr_cb_noisy ! uu ! c"
  shows "n_configurations_flex st ! ms1 ! uu \<le> n_configurations_flex st ! ms2 ! uu"
proof -
  let ?row = "snr_cb_noisy ! uu" and ?t1 = "minimum_snr_range ! ms1"
    and ?t2 = "minimum_snr_range ! ms2"
  from assms(1) have "num_users \<le> length snr_cb_noisy" by simp
  from beam_sweep_entries[OF this, of minimum_snr_range] assms(2,3,4,5)
  have n1: "n_configurations_flex st ! ms1 ! uu = sel_count ?row ?t1"
    and n2: "n_configurations_flex st ! ms2 ! uu = sel_count ?row ?t2"
    by auto
  from assms(7) have c2: "clears ?row ?t2" by (simp add: clears_nth)
  note p2 = first_clear_props[OF c2]
  from p2(1,2) assms(6) have le: "?t1 \<le> ?row ! first_clear ?row ?t2" by simp
  with p2(1) have c1: "clears ?row ?t1"
    unfolding clears_nth by blast
  have "first_clear ?row ?t1 \<le> first_clear ?row ?t2"
    using p2(1) le by (rule first_clear_le)
  with c1 c2 n1 n2 show ?thesis by (simp add: sel_count_def)
qed

text \<open>An instance: the row \<open>[3, 5]\<close> with the thresholds 1 and 4.\<close>

theorem sweep_count_monotone_on_success_witness:
  "beam_sweep [[3, 5]] 1 [1, 4] =
     Inr \<lparr>rate_flex = [[1], [log 2 5]], n_configurations_flex = [[1], [2]]\<rparr> \<and>
   n_configurations_flex \<lparr>rate_flex = [[1], [log 2 5]], n_configurations_flex = [[1], [2]]\<rparr> ! 0 ! 0
     \<le> n_configurations_flex \<lparr>rate_flex = [[1], [log 2 5]], n_configurations_flex = [[1], [2]]\<rparr> ! 1 ! 0"
proof -
  have run: "beam_sweep [[3, 5]] 1 [1, 4] =
      Inr \<lparr>rate_flex = [[1], [log 2 5]], n_configurations_flex = [[1], [2]]\<rparr>"
    by (simp add: beam_sweep_def sweep_user_def py_sum_Nil py_sum_Cons argmax_def set2_def
        zeros2_def enumerate_eq_zip)
  have ex: "\<exists>c < length ([[3, 5::real]] ! 0). [1, 4] ! 1 \<le> [[3, 5::real]] ! 0 ! c"
    by (intro exI[of _ 1]) simp
  have "n_configurations_flex \<lparr>rate_flex = [[1], [log 2 5]], n_configurations_flex = [[1], [2]]\<rparr> ! 0 ! 0
     \<le> n_configurations_flex \<lparr>rate_flex = [[1], [log 2 5]], n_configurations_flex = [[1], [2]]\<rparr> ! 1 ! 0"
    by (rule sweep_count_monotone_on_success[OF _ run _ _ _ _ ex, of 0]) simp_all
  with run show ?thesis by (rule conjI)
qed

text \<open>
  Claim C5 as stated fails: for the row \<open>[5]\<close> the threshold 1 records one configuration
  and the larger threshold 10000 (the two ends of the script's range) records zero.
\<close>

theorem sweep_count_not_monotone:
  "beam_sweep [[5]] 1 [1, 10000] =
     Inr \<lparr>rate_flex = [[1], [0]], n_configurations_flex = [[1], [0]]\<rparr> \<and>
   [1, 10000 :: real] ! 0 \<le> [1, 10000] ! 1 \<and>
   \<not> (n_configurations_flex \<lparr>rate_flex = [[1], [0]], n_configurations_flex = [[1], [0]]\<rparr> ! 0 ! 0
        \<le> n_configurations_flex \<lparr>rate_flex = [[1], [0]], n_configurations_flex = [[1], [0]]\<rparr> ! 1 ! 0)"
  by (simp add: beam_sweep_def sweep_user_def py_sum_Nil py_sum_Cons argmax_def set2_def
      zeros2_def enumerate_eq_zip)

subsection \<open>The rate accounting\<close>

lemma nth_map2_map2:
  assumes "i < length A" "i < length B" "j < length (A ! i)" "j < length (B ! i)"
  shows "map2 (map2 f) A B ! i ! j = f (A ! i ! j) (B ! i ! j)"
  using assms by simp

lemma tau_alg_nth:
  "dims M U n_conf \<Longrightarrow> ms < M \<Longrightarrow> uu < U \<Longrightarrow>
   tau_alg n_conf ! ms ! uu = (2 * n_conf ! ms ! uu - 1) * T"
  by (simp add: tau_alg_def dims_nth)

lemma prelog_term_nth:
  "dims M U n_conf \<Longrightarrow> ms < M \<Longrightarrow> uu < U \<Longrightarrow>
   prelog_term setup n_conf ! ms ! uu =
     1 - (tau_setup setup + tau_setup setup + (2 * n_conf ! ms ! uu - 1) * T) / total_tau"
  by (simp add: prelog_term_def tau_alg_def dims_nth)

lemma rate_cb_bsw_nth:
  assumes "dims M U (rate_flex st)" "dims M U (n_configurations_flex st)" "ms < M" "uu < U"
  shows "rate_cb_bsw setup st ! ms ! uu =
     (1 - (tau_setup setup + tau_setup setup + (2 * n_configurations_flex st ! ms ! uu - 1) * T)
          / total_tau) * rate_flex st ! ms ! uu"
proof -
  have "rate_cb_bsw setup st ! ms ! uu =
      prelog_term setup (n_configurations_flex st) ! ms ! uu * rate_flex st ! ms ! uu"
    unfolding rate_cb_bsw_def using assms
    by (intro nth_map2_map2) (simp_all add: dims_nth prelog_term_def tau_alg_def)
  then show ?thesis
    using assms by (simp add: prelog_term_nth)
qed

text \<open>
  Claim C7, amended. For the arrays that the search returns, every entry of \<open>tau_alg\<close> is
  \<open>(2 n - 1) T\<close> for the recorded count \<open>n\<close> (two periods per sweep step, less one);
  the pre-log term is the total time, less twice \<open>tau_setup\<close> and less \<open>tau_alg\<close>, over the
  total time; and the effective rate is the pre-log term times the recorded rate, which is
  \<open>log2 (1 + threshold)\<close> when some configuration reaches the threshold and zero otherwise.
\<close>

theorem rate_accounting:
  assumes "length snr_cb_noisy = num_users"
    and "beam_sweep snr_cb_noisy num_users minimum_snr_range = Inr st"
    and "ms < length minimum_snr_range" "uu < num_users"
  shows "tau_alg (n_configurations_flex st) ! ms ! uu =
           (2 * n_configurations_flex st ! ms ! uu - 1) * T \<and>
         prelog_term setup (n_configurations_flex st) ! ms ! uu =
           (total_tau - (2 * tau_setup setup + tau_alg (n_configurations_flex st) ! ms ! uu))
             / total_tau \<and>
         rate_cb_bsw setup st ! ms ! uu =
           prelog_term setup (n_configurations_flex st) ! ms ! uu *
             (if \<exists>c < length (snr_cb_noisy ! uu).
                   minimum_snr_range ! ms \<le> snr_cb_noisy ! uu ! c
              then log 2 (1 + minimum_snr_range ! ms) else 0)"
proof -
  from assms(1) have "num_users \<le> length snr_cb_noisy" by simp
  from beam_sweep_entries[OF this, of minimum_snr_range] assms(2)
  have d: "dims (length minimum_snr_range) num_users (rate_flex st)"
      "dims (length minimum_snr_range) num_users (n_configurations_flex st)"
    and ent: "\<forall>ms < length minimum_snr_range. \<forall>uu < num_users.
        rate_flex st ! ms ! uu = sel_rate (snr_cb_noisy ! uu) (minimum_snr_range ! ms)"
    by auto
  have tt: "total_tau \<noteq> 0" by (simp add: total_tau_def T_def n_ttis_def)
  have a: "tau_alg (n_configurations_flex st) ! ms ! uu =
           (2 * n_configurations_flex st ! ms ! uu - 1) * T"
    using d(2) assms(3,4) by (rule tau_alg_nth)
  have b: "prelog_term setup (n_configurations_flex st) ! ms ! uu =
           (total_tau - (2 * tau_setup setup + tau_alg (n_configurations_flex st) ! ms ! uu))
             / total_tau"
    using tt by (simp add: prelog_term_nth[OF d(2) assms(3,4)] a diff_divide_distrib)
  have "rate_flex st ! ms ! uu = sel_rate (snr_cb_noisy ! uu) (minimum_snr_range ! ms)"
    using ent assms(3,4) by simp
  then have c: "rate_cb_bsw setup st ! ms ! uu =
           prelog_term setup (n_configurations_flex st) ! ms ! uu *
             (if \<exists>c < length (snr_cb_noisy ! uu).
                   minimum_snr_range ! ms \<le> snr_cb_noisy ! uu ! c
              then log 2 (1 + minimum_snr_range ! ms) else 0)"
    by (simp add: rate_cb_bsw_nth[OF d assms(3,4)] prelog_term_nth[OF d(2) assms(3,4)]
        sel_rate_def clears_nth)
  from a b c show ?thesis by blast
qed

lemma sweep_example:
  "beam_sweep [[0, 5]] 1 [1] = Inr \<lparr>rate_flex = [[1]], n_configurations_flex = [[2]]\<rparr>"
  by (simp add: beam_sweep_def sweep_user_def py_sum_Nil py_sum_Cons argmax_def set2_def
      zeros2_def enumerate_eq_zip)

text \<open>An instance: the row \<open>[0, 5]\<close>, the threshold 1 and the setup \<^verbatim>\<open>ib-no\<close>.\<close>

theorem rate_accounting_witness:
  "tau_alg [[2]] ! 0 ! 0 = 3 * T \<and>
   prelog_term ''ib-no'' [[2]] ! 0 ! 0 =
     (total_tau - (2 * tau_setup ''ib-no'' + tau_alg [[2]] ! 0 ! 0)) / total_tau \<and>
   rate_cb_bsw ''ib-no'' \<lparr>rate_flex = [[1]], n_configurations_flex = [[2]]\<rparr> ! 0 ! 0 =
     prelog_term ''ib-no'' [[2]] ! 0 ! 0 * log 2 (1 + 1)"
proof -
  have len: "length [[0, 5 :: real]] = 1" by simp
  have ex: "\<exists>c < length ([[0, 5 :: real]] ! 0). [1] ! 0 \<le> [[0, 5 :: real]] ! 0 ! c"
    by (intro exI[of _ 1]) simp
  from rate_accounting[OF len sweep_example, of 0 0 "''ib-no''"] ex
  show ?thesis by simp
qed

text \<open>
  Claim C7 as stated fails: a recorded count of 2 is charged \<open>3 T\<close>, not \<open>2 T\<close>, and the
  effective rate differs from the rate at one period per step, whether the fixed overhead of
  the setup is taken once or twice.
\<close>

theorem rate_accounting_not_one_period_per_step:
  "beam_sweep [[0, 5]] 1 [1] = Inr \<lparr>rate_flex = [[1]], n_configurations_flex = [[2]]\<rparr> \<and>
   tau_alg [[2]] ! 0 ! 0 \<noteq> spec_overhead 2 \<and>
   rate_cb_bsw ''ob-cc'' \<lparr>rate_flex = [[1]], n_configurations_flex = [[2]]\<rparr> ! 0 ! 0
     \<noteq> spec_rate (tau_setup ''ob-cc'') 2 1 \<and>
   rate_cb_bsw ''ob-cc'' \<lparr>rate_flex = [[1]], n_configurations_flex = [[2]]\<rparr> ! 0 ! 0
     \<noteq> spec_rate (tau_setup ''ob-cc'' + tau_setup ''ob-cc'') 2 1"
proof -
  have "tau_alg [[2]] ! 0 ! 0 \<noteq> spec_overhead 2"
    by (simp add: tau_alg_def spec_overhead_def T_def)
  moreover have "rate_cb_bsw ''ob-cc'' \<lparr>rate_flex = [[1]], n_configurations_flex = [[2]]\<rparr> ! 0 ! 0
      = 39 / 40"
    by (simp add: rate_cb_bsw_def prelog_term_def tau_alg_def tau_setup_def total_tau_def T_def
        n_ttis_def)
  moreover have "spec_rate (tau_setup ''ob-cc'') 2 1 = 197 / 200"
    by (simp add: spec_rate_def spec_overhead_def tau_setup_def total_tau_def T_def n_ttis_def)
  moreover have "spec_rate (tau_setup ''ob-cc'' + tau_setup ''ob-cc'') 2 1 = 49 / 50"
    by (simp add: spec_rate_def spec_overhead_def tau_setup_def total_tau_def T_def n_ttis_def)
  ultimately show ?thesis
    using sweep_example by simp
qed

subsection \<open>pointing\<close>

lemma main_lobe_height:
  assumes "0 < elevation_angle" "elevation_angle < pi / 2"
  shows "sqrt (1 - (cos azimuth_angle * sin elevation_angle)\<^sup>2
                 - (sin azimuth_angle * sin elevation_angle)\<^sup>2) = cos elevation_angle"
proof -
  have "1 - (cos azimuth_angle * sin elevation_angle)\<^sup>2
          - (sin azimuth_angle * sin elevation_angle)\<^sup>2
        = 1 - (sin elevation_angle)\<^sup>2 * ((cos azimuth_angle)\<^sup>2 + (sin azimuth_angle)\<^sup>2)"
  proof -
    have "(sin elevation_angle)\<^sup>2 * ((cos azimuth_angle)\<^sup>2 + (sin azimuth_angle)\<^sup>2)
        = (cos azimuth_angle * sin elevation_angle)\<^sup>2
          + (sin azimuth_angle * sin elevation_angle)\<^sup>2"
      by (simp only: power_mult_distrib distrib_left mult.commute)
    then show ?thesis by simp
  qed
  also have "\<dots> = (cos elevation_angle)\<^sup>2"
    by (simp add: cos_squared_eq)
  finally have "sqrt (1 - (cos azimuth_angle * sin elevation_angle)\<^sup>2
                 - (sin azimuth_angle * sin elevation_angle)\<^sup>2) = \<bar>cos elevation_angle\<bar>"
    by simp
  moreover have "0 < cos elevation_angle"
    using assms by (simp add: cos_gt_zero)
  ultimately show ?thesis by simp
qed

text \<open>
  Claim C3. For an elevation strictly between 0 and \<open>\<pi>/2\<close> and any azimuth,
  \<open>pointing\<close> with \<open>k_max = 1\<close> returns exactly one point: its horizontal coordinates are
  \<open>z_size * tan elevation\<close> times \<open>(cos azimuth, sin azimuth)\<close> and its third coordinate
  is \<open>z_size\<close>. The RIS is at the origin of the coordinates, so the coordinates of the point
  are its offset from the RIS. The two hypotheses on the array are what the constructor
  establishes (at least one element per row, a spacing of half a wavelength); they keep the
  divisions of line 134 away from a zero denominator.
\<close>

theorem pointing_main_lobe:
  assumes "0 < elevation_angle" "elevation_angle < pi / 2"
    and "0 < num_els_h (ris env)" "dist_els_h (ris env) \<noteq> 0"
  shows "pointing env azimuth_angle elevation_angle 1 =
           [(z_size env * tan elevation_angle * cos azimuth_angle,
             z_size env * tan elevation_angle * sin azimuth_angle,
             z_size env)]"
proof -
  have c: "0 < cos elevation_angle"
    using assms(1,2) by (simp add: cos_gt_zero)
  have xp: "x_pointing env azimuth_angle elevation_angle (Suc 0)
      = [cos azimuth_angle * sin elevation_angle]"
    by (simp add: x_pointing_def)
  have yp: "y_pointing env azimuth_angle elevation_angle (Suc 0)
      = [sin azimuth_angle * sin elevation_angle]"
    by (simp add: y_pointing_def)
  have zp: "z_pointing [cos azimuth_angle * sin elevation_angle]
      [sin azimuth_angle * sin elevation_angle] = [cos elevation_angle]"
    using main_lobe_height[OF assms(1,2)] by (simp add: z_pointing_def)
  show ?thesis
    using c by (simp add: pointing_def Let_def xp yp zp tan_def)
qed

text \<open>An instance: elevation \<open>\<pi>/4\<close> and azimuth 0 in a room of height 5.\<close>

theorem pointing_main_lobe_witness:
  "pointing env0 0 (pi / 4) 1 = [(5, 0, 5)]"
proof -
  have "0 < num_els_h (ris env0)" "dist_els_h (ris env0) \<noteq> 0" "z_size env0 = 5"
    by (simp_all add: env0_def)
  moreover have "(0::real) < pi / 4" "pi / 4 < pi / 2" by simp_all
  ultimately show ?thesis
    using pointing_main_lobe[of "pi / 4" env0 0] by (simp add: tan_45)
qed

subsection \<open>pos2beta\<close>

text \<open>
  Claim C6. For every array of nonzero points, \<open>pos2beta\<close> returns, for each point,
  10 to the power \<open>- pl / 10\<close>, where \<open>pl\<close> is the additive expression in dB of the
  specification: the three updates of lines 149 to 151 add up to it before the single
  exponentiation of line 152.
\<close>

theorem pos2beta_additive_dB:
  assumes "\<forall>p \<in> set x. p \<noteq> (0, 0, 0)"
  shows "pos2beta env x = map (\<lambda>p. 10 powr (- pl_dB env p / 10)) x"
proof -
  have "\<And>p. 10 * pl_exponent env * log 10 (dist_br env * norm3 p)
          + - (gain (bs env) + gain (ue env))
          + - 40 * log 10 (wavelength env / 4 / pi / ref_dist env)
          + - 20 * pl_exponent env * log 10 (ref_dist env) = pl_dB env p"
    by (simp add: pl_dB_def)
  then show ?thesis
    unfolding pos2beta_def Let_def by simp
qed

text \<open>An instance: one point at distance 5 from the RIS.\<close>

theorem pos2beta_additive_dB_witness:
  "pos2beta env0 [(3, 4, 0)] = [10 powr (- pl_dB env0 (3, 4, 0) / 10)]"
  using pos2beta_additive_dB[of "[(3, 4, 0)]" env0] by simp

subsection \<open>ecdf\<close>

lemma distinct_remdups_adj_sorted:
  "sorted (xs :: 'a::linorder list) \<Longrightarrow> distinct (remdups_adj xs)"
proof (induction xs rule: remdups_adj.induct)
  case (3 x y xs)
  then show ?case by (auto simp: less_le)
qed simp_all

lemma le_last_sorted:
  "sorted (xs :: 'a::linorder list) \<Longrightarrow> y \<in> set xs \<Longrightarrow> y \<le> last xs"
  by (induction xs) auto

lemma unique_values:
  "remdups_adj (sort a) = sorted_list_of_set (set a)"
proof -
  have "sorted (remdups_adj (sort a))" "distinct (remdups_adj (sort a))"
    by (simp_all add: distinct_remdups_adj_sorted)
  then have "sorted_list_of_set (set (remdups_adj (sort a))) = remdups_adj (sort a)"
    by (rule sorted_list_of_set.idem_if_sorted_distinct)
  then show ?thesis by simp
qed

lemma count_list_filter: "count_list a v = length (filter (\<lambda>y. y = v) a)"
  by (induction a) auto

lemma length_filter_disj:
  assumes "\<And>y. y \<in> set a \<Longrightarrow> \<not> (P y \<and> Q y)"
  shows "length (filter (\<lambda>y. P y \<or> Q y) a) = length (filter P a) + length (filter Q a)"
  using assms by (induction a) auto

lemma cumsum_from_counts:
  assumes "sorted xs" "distinct xs"
  shows "cumsum_from acc (map (count_list a) xs) =
           map (\<lambda>v. acc + length (filter (\<lambda>y. y \<in> set xs \<and> y \<le> v) a)) xs"
  using assms
proof (induction xs arbitrary: acc)
  case Nil
  then show ?case by simp
next
  case (Cons v vs)
  then have lt: "\<And>w. w \<in> set vs \<Longrightarrow> v < w" by (auto simp: less_le)
  have hd: "length (filter (\<lambda>y. y \<in> set (v # vs) \<and> y \<le> v) a) = count_list a v"
  proof -
    have "\<And>y. (y \<in> set (v # vs) \<and> y \<le> v) \<longleftrightarrow> y = v"
      using lt by fastforce
    then show ?thesis by (simp add: count_list_filter)
  qed
  have tl: "\<And>w. w \<in> set vs \<Longrightarrow>
      length (filter (\<lambda>y. y \<in> set (v # vs) \<and> y \<le> w) a)
        = count_list a v + length (filter (\<lambda>y. y \<in> set vs \<and> y \<le> w) a)"
  proof -
    fix w assume w: "w \<in> set vs"
    have "\<And>y. (y \<in> set (v # vs) \<and> y \<le> w) \<longleftrightarrow> (y = v \<or> (y \<in> set vs \<and> y \<le> w))"
      using lt[OF w] by fastforce
    moreover have "\<And>y. \<not> (y = v \<and> (y \<in> set vs \<and> y \<le> w))"
      using Cons.prems(2) by auto
    ultimately show "length (filter (\<lambda>y. y \<in> set (v # vs) \<and> y \<le> w) a)
        = count_list a v + length (filter (\<lambda>y. y \<in> set vs \<and> y \<le> w) a)"
      using length_filter_disj[of a "\<lambda>y. y = v" "\<lambda>y. y \<in> set vs \<and> y \<le> w"]
      by (simp add: count_list_filter)
  qed
  from Cons have "cumsum_from (acc + count_list a v) (map (count_list a) vs) =
      map (\<lambda>w. acc + count_list a v + length (filter (\<lambda>y. y \<in> set vs \<and> y \<le> w) a)) vs"
    by simp
  also have "\<dots> = map (\<lambda>w. acc + length (filter (\<lambda>y. y \<in> set (v # vs) \<and> y \<le> w) a)) vs"
    using tl by simp
  finally show ?case
    using hd by simp
qed

lemma cumsum_counts:
  "cumsum (map (count_list a) (sorted_list_of_set (set a))) =
     map (\<lambda>v. length (filter (\<lambda>y. y \<le> v) a)) (sorted_list_of_set (set a))"
proof -
  have "\<And>v. filter (\<lambda>y. y \<in> set (sorted_list_of_set (set a)) \<and> y \<le> v) a
      = filter (\<lambda>y. y \<le> v) a"
    by (rule filter_cong) auto
  then show ?thesis
    unfolding cumsum_def
    using cumsum_from_counts[of "sorted_list_of_set (set a)" 0 a] by simp
qed

lemma last_cumsum_counts:
  assumes "a \<noteq> []"
  shows "last (map (\<lambda>v. length (filter (\<lambda>y. y \<le> v) a)) (sorted_list_of_set (set a)))
           = length a"
proof -
  let ?x = "sorted_list_of_set (set a)"
  from assms have ne: "?x \<noteq> []" by simp
  have "\<And>y. y \<in> set a \<Longrightarrow> y \<le> last ?x"
  proof -
    fix y assume "y \<in> set a"
    then have "y \<in> set ?x" by simp
    moreover have "sorted ?x" by simp
    ultimately show "y \<le> last ?x" by (rule le_last_sorted[rotated])
  qed
  then have "filter (\<lambda>y. y \<le> last ?x) a = a"
    by (simp add: filter_id_conv)
  with ne show ?thesis by (simp add: last_map)
qed

lemma ecdf_general:
  assumes "a \<noteq> []"
  shows "ecdf np a =
     Inr (sorted_list_of_set (set a),
          map (\<lambda>v. real (length (filter (\<lambda>y. y \<le> v) a)) / real (length a))
            (sorted_list_of_set (set a)))"
proof -
  let ?x = "sorted_list_of_set (set a)"
  let ?cs = "map (\<lambda>v. length (filter (\<lambda>y. y \<le> v) a)) ?x"
  from assms have ne: "?cs \<noteq> []" by simp
  have u: "np_unique a = (?x, map (count_list a) ?x)"
    by (simp add: np_unique_def unique_values Let_def)
  have "ecdf np a = Inr (?x, map (\<lambda>c. real c / real (last ?cs)) ?cs)"
    using ne by (cases np) (simp_all add: ecdf_def u cumsum_counts asnumpy_def)
  then show ?thesis
    by (simp add: last_cumsum_counts[OF assms] comp_def)
qed

text \<open>
  Claim C9. For every non-empty array, \<open>ecdf\<close> returns the sorted distinct values of the
  array and, for each of them, the number of samples up to that value divided by the number
  of samples; on \<open>[1, 1, 2, 3, 3, 3]\<close> it returns the values \<open>[1, 2, 3]\<close> with the
  probabilities \<open>[2/6, 3/6, 6/6]\<close>. The result is a function of the argument alone, with
  either array library: the source assigns to local names only, and the model has no state.
\<close>

theorem ecdf_sorted_unique_cumulative:
  "(\<forall>np a. a \<noteq> [] \<longrightarrow>
      ecdf np a =
        Inr (sorted_list_of_set (set a),
             map (\<lambda>v. real (length (filter (\<lambda>y. y \<le> v) a)) / real (length a))
               (sorted_list_of_set (set a)))) \<and>
   (\<forall>np. ecdf np [1, 1, 2, 3, 3, 3] = Inr ([1, 2, 3], [2 / 6, 3 / 6, 6 / 6]))"
proof (intro conjI allI impI)
  fix np :: backend and a :: "real list"
  assume "a \<noteq> []"
  then show "ecdf np a =
        Inr (sorted_list_of_set (set a),
             map (\<lambda>v. real (length (filter (\<lambda>y. y \<le> v) a)) / real (length a))
               (sorted_list_of_set (set a)))"
    by (rule ecdf_general)
next
  fix np :: backend
  have "sorted_list_of_set (set [1, 1, 2, 3, 3, 3 :: real]) = sort (remdups [1, 1, 2, 3, 3, 3])"
    by (rule sorted_list_of_set_sort_remdups)
  then have "sorted_list_of_set (set [1, 1, 2, 3, 3, 3 :: real]) = [1, 2, 3]"
    by simp
  then show "ecdf np [1, 1, 2, 3, 3, 3] = Inr ([1, 2, 3], [2 / 6, 3 / 6, 6 / 6])"
    using ecdf_general[of "[1, 1, 2, 3, 3, 3]" np] by simp
qed

text \<open>An instance with unsorted input.\<close>

theorem ecdf_sorted_unique_cumulative_witness:
  "ecdf Numpy [3, 1, 3, 2] = Inr ([1, 2, 3], [1 / 4, 2 / 4, 4 / 4])"
proof -
  have "sorted_list_of_set (set [3, 1, 3, 2 :: real]) = sort (remdups [3, 1, 3, 2])"
    by (rule sorted_list_of_set_sort_remdups)
  then have "sorted_list_of_set (set [3, 1, 3, 2 :: real]) = [1, 2, 3]"
    by simp
  moreover have "[3, 1, 3, 2 :: real] \<noteq> []" by simp
  ultimately show ?thesis
    using ecdf_sorted_unique_cumulative[THEN conjunct1, rule_format, of "[3, 1, 3, 2]" Numpy]
    by simp
qed

subsection \<open>The DFT codebook\<close>

lemma fundamental_freq_cis: "fundamental_freq N = cis (- (2 * pi / real N))"
proof -
  have "- \<i> * 2 * complex_of_real pi / of_nat N = \<i> * complex_of_real (- (2 * pi / real N))"
    by simp
  then show ?thesis
    unfolding fundamental_freq_def cis_conv_exp by (simp add: algebra_simps)
qed

lemma fundamental_freq_power: "fundamental_freq N ^ m = cis (- (2 * pi * real m / real N))"
  by (simp add: fundamental_freq_cis DeMoivre algebra_simps)

lemma DFT_row:
  assumes "j < N"
  shows "DFT N ! j = map (\<lambda>k. fundamental_freq N ^ (k * j)) [0..<N]"
proof -
  have "DFT N ! j = map2 (\<lambda>j k. fundamental_freq N ^ (j * k)) [0..<N] (replicate N j)"
    using assms by (simp add: DFT_def meshgrid_def)
  also have "\<dots> = map (\<lambda>k. fundamental_freq N ^ (k * j)) [0..<N]"
    by (rule nth_equalityI) simp_all
  finally show ?thesis .
qed

lemma length_DFT: "length (DFT N) = N"
  by (simp add: DFT_def meshgrid_def)

lemma DFT_norm_row:
  assumes "j < N"
  shows "DFT_norm N ! j =
           map (\<lambda>k. fundamental_freq N ^ (k * j) / complex_of_real (sqrt (real N))) [0..<N]"
  using assms by (simp add: DFT_norm_def length_DFT DFT_row comp_def)

lemma sum_list_upt: "(\<Sum>k\<leftarrow>[0..<N]. f k) = (\<Sum>k<N. f k)"
  by (simp add: interv_sum_list_conv_sum_set_nat atLeast0LessThan)

lemma row_sq_norm:
  assumes "j < N"
  shows "sq_norm (DFT_norm N ! j) = 1"
proof -
  from assms have N: "0 < N" by simp
  have "\<And>k. (cmod (fundamental_freq N ^ (k * j) / complex_of_real (sqrt (real N))))\<^sup>2
      = 1 / real N"
    by (simp add: fundamental_freq_power norm_divide power_divide)
  then have "sq_norm (DFT_norm N ! j) = (\<Sum>k\<leftarrow>[0..<N]. 1 / real N)"
    by (simp add: sq_norm_def DFT_norm_row[OF assms] comp_def)
  also have "\<dots> = 1"
    using N by (simp add: sum_list_upt)
  finally show ?thesis .
qed

lemma cis_fraction_neq_1:
  assumes "d \<noteq> 0" "\<bar>d\<bar> < int N"
  shows "cis (2 * pi * real_of_int d / real N) \<noteq> 1"
proof
  assume "cis (2 * pi * real_of_int d / real N) = 1"
  then have "cos (2 * pi * real_of_int d / real N) = 1"
    by (simp add: complex_eq_iff)
  then obtain m :: int where m: "2 * pi * real_of_int d / real N = real_of_int m * 2 * pi"
    by (auto simp: cos_one_2pi_int)
  from assms have N: "0 < real N" by simp
  from m N have "real_of_int d = real_of_int (m * int N)"
    by (simp add: field_simps)
  then have "d = m * int N" by (simp only: of_int_eq_iff)
  with assms show False
    by (cases "m = 0") (auto simp: abs_mult dest: zdvd_imp_le)
qed

lemma row_inner_prod:
  assumes "j < N" "j' < N" "j \<noteq> j'"
  shows "inner_prod (DFT_norm N ! j) (DFT_norm N ! j') = 0"
proof -
  from assms have N: "0 < N" by simp
  let ?z = "cis (2 * pi * real_of_int (int j' - int j) / real N)"
  have tm: "\<And>k. fundamental_freq N ^ (k * j) / complex_of_real (sqrt (real N))
            * cnj (fundamental_freq N ^ (k * j') / complex_of_real (sqrt (real N)))
          = ?z ^ k / of_nat N"
  proof -
    fix k
    have "fundamental_freq N ^ (k * j) * cnj (fundamental_freq N ^ (k * j')) = ?z ^ k"
    proof -
      have "- (2 * pi * real (k * j) / real N) + - (- (2 * pi * real (k * j') / real N))
          = real k * (2 * pi * real_of_int (int j' - int j) / real N)"
        by (simp add: algebra_simps diff_divide_distrib)
      then show ?thesis
        by (simp only: fundamental_freq_power cis_cnj cis_mult DeMoivre)
    qed
    moreover have "complex_of_real (sqrt (real N)) * complex_of_real (sqrt (real N)) = of_nat N"
      by (metis of_real_mult of_real_of_nat_eq real_sqrt_mult_self abs_of_nat)
    ultimately show "fundamental_freq N ^ (k * j) / complex_of_real (sqrt (real N))
            * cnj (fundamental_freq N ^ (k * j') / complex_of_real (sqrt (real N)))
          = ?z ^ k / of_nat N"
      by simp
  qed
  have z1: "?z \<noteq> 1"
    using assms by (intro cis_fraction_neq_1) auto
  have zN: "?z ^ N = 1"
    using N by (simp add: DeMoivre)
  have "inner_prod (DFT_norm N ! j) (DFT_norm N ! j') =
      (\<Sum>k\<leftarrow>[0..<N]. fundamental_freq N ^ (k * j) / complex_of_real (sqrt (real N))
            * cnj (fundamental_freq N ^ (k * j') / complex_of_real (sqrt (real N))))"
    unfolding inner_prod_def DFT_norm_row[OF assms(1)] DFT_norm_row[OF assms(2)]
    by (simp only: zip_map_map zip_same_conv_map map_map comp_def prod.case)
  also have "\<dots> = (\<Sum>k\<leftarrow>[0..<N]. ?z ^ k / of_nat N)"
    by (simp only: tm)
  also have "\<dots> = (\<Sum>k<N. ?z ^ k) / of_nat N"
    by (simp add: sum_list_upt sum_divide_distrib)
  also have "\<dots> = 0"
    using z1 zN by (simp add: geometric_sum)
  finally show ?thesis .
qed

text \<open>
  Claim C4. The codebook \<open>DFT_norm N\<close> is the \<open>N\<close> by \<open>N\<close> matrix whose entry
  \<open>(j, k)\<close> is \<open>exp (- 2 \<pi> \<i> / N)\<close> to the power \<open>j * k\<close>, divided by the square
  root of \<open>N\<close>; every row has squared Euclidean norm 1, and two distinct rows have inner
  product zero.
\<close>

theorem DFT_norm_unitary:
  "length (DFT_norm N) = N \<and>
   (\<forall>j < N. length (DFT_norm N ! j) = N) \<and>
   (\<forall>j < N. \<forall>k < N.
      DFT_norm N ! j ! k =
        exp (- \<i> * 2 * complex_of_real pi / of_nat N) ^ (j * k) / complex_of_real (sqrt (real N))) \<and>
   (\<forall>j < N. sq_norm (DFT_norm N ! j) = 1) \<and>
   (\<forall>j < N. \<forall>j' < N. j \<noteq> j' \<longrightarrow> inner_prod (DFT_norm N ! j) (DFT_norm N ! j') = 0)"
proof (intro conjI allI impI)
  show "length (DFT_norm N) = N"
    by (simp add: DFT_norm_def length_DFT)
next
  fix j assume "j < N"
  then show "length (DFT_norm N ! j) = N"
    by (simp add: DFT_norm_row)
next
  fix j k assume "j < N" "k < N"
  then show "DFT_norm N ! j ! k =
        exp (- \<i> * 2 * complex_of_real pi / of_nat N) ^ (j * k) / complex_of_real (sqrt (real N))"
    by (simp add: DFT_norm_row fundamental_freq_def mult.commute)
next
  fix j assume "j < N"
  then show "sq_norm (DFT_norm N ! j) = 1"
    by (rule row_sq_norm)
next
  fix j j' assume "j < N" "j' < N" "j \<noteq> j'"
  then show "inner_prod (DFT_norm N ! j) (DFT_norm N ! j') = 0"
    by (rule row_inner_prod)
qed

text \<open>An instance: the codebook of four elements.\<close>

theorem DFT_norm_unitary_witness:
  "length (DFT_norm 4) = 4 \<and>
   DFT_norm 4 ! 1 ! 3 = exp (- \<i> * 2 * complex_of_real pi / 4) ^ 3 / 2 \<and>
   sq_norm (DFT_norm 4 ! 1) = 1 \<and>
   inner_prod (DFT_norm 4 ! 1) (DFT_norm 4 ! 3) = 0"
proof -
  have s: "sqrt 4 = 2"
    using real_sqrt_abs[of 2] by simp
  have "(1::nat) < 4" "(3::nat) < 4" "(1::nat) \<noteq> 3" by simp_all
  then show ?thesis
    using DFT_norm_unitary[of 4] s by simp
qed

subsection \<open>compute_afgain\<close>

lemma bdim_same: "bdim a a = Some a"
  by (simp add: bdim_def)

lemma bdim_one_left: "bdim (Suc 0) b = Some b"
  by (simp add: bdim_def)

lemma bdim_one_right: "bdim a (Suc 0) = Some a"
  by (simp add: bdim_def)

lemma bidx_less: "i < d \<Longrightarrow> bidx d i = i"
  by (auto simp: bidx_def)

lemma bidx_one: "bidx (Suc 0) i = 0"
  by (simp add: bidx_def)

lemma bidx_upt: "i \<in> set [0..<d] \<Longrightarrow> bidx d i = i"
  by (simp add: bidx_less)

lemma mod_upt: "i \<in> set [0..<d] \<Longrightarrow> i mod d = i"
  by simp

lemma sum_list_upt_cong:
  "(\<And>i. i < n \<Longrightarrow> f i = g i) \<Longrightarrow> (\<Sum>i\<leftarrow>[0..<n]. f i) = (\<Sum>i\<leftarrow>[0..<n]. g i)"
  by (rule arg_cong[where f = sum_list]) simp

lemma batch_gain:
  assumes sh: "env_shapes env" and rb: "RBs env = 1"
    and len: "length dists = w" "length versors = w"
    and br: "br_expr env w = Inr br"
  shows "\<exists>ru G. ru_expr env dists versors w = Inr ru \<and>
           gain_expr env ru br = Inr ((1, w), G) \<and>
           (\<forall>k < w. G 0 k = point_gain env (dists ! k, versors ! k))"
proof -
  from sh rb obtain f where f: "freqs env = [f]"
    by (cases "freqs env") (auto simp: env_shapes_def)
  from sh have E: "length (el_pos (ris env)) = num_els (ris env)"
    and C: "length (actual_conf (ris env)) = num_els (ris env)"
    by (simp_all add: env_shapes_def)
  from br have br': "br = ((num_els (ris env), 1, w),
      \<lambda>i j k. f * (dist_br env - dot3 (pos_cartver (bs env)) (el_pos (ris env) ! (bidx (num_els (ris env)) i mod num_els (ris env)))))"
    by (auto simp: br_expr_def freqs_col_def row_of_def f rb E bdim_same bdim_one_left
        bdim_one_right bidx_one)
  show ?thesis
    unfolding br'
    apply (simp add: ru_expr_def gain_expr_def freqs_col_def row_of_def f rb E C len bdim_same
        bdim_one_left bdim_one_right bidx_one Let_def point_gain_def bidx_less)
    apply (intro allI impI arg_cong[where f = cmod] arg_cong2[where f = "(/)"] refl
        sum_list_upt_cong)
    apply (simp add: bidx_less)
    done
qed


lemma br_expr_ok:
  assumes "length (freqs env) = RBs env"
  shows "\<exists>br. br_expr env w = Inr br"
  using assms
  by (simp add: br_expr_def freqs_col_def row_of_def bdim_same bdim_one_left)

lemma assign_batch:
  assumes "min hi (length af) - lo = w" "length dists = w" "length versors = w"
    and "\<forall>k < w. G 0 k = point_gain env (dists ! k, versors ! k)"
  shows "assign_slice af lo hi ((1, w), G) =
           Inr (take lo af @ map (point_gain env) (zip dists versors) @ drop (lo + w) af)"
proof -
  have "map (\<lambda>k. G 0 (bidx w k)) [0..<w] = map (point_gain env) (zip dists versors)"
    using assms(2,3,4) by (intro nth_equalityI) (simp_all add: bidx_less)
  with assms(1) show ?thesis by simp
qed

lemma afgain_iter_eq:
  assumes sh: "env_shapes env" and rb: "RBs env = 1"
    and len: "length pos_dist = N" "length pos_versor = N"
    and i: "(i + 1) * n \<le> N"
    and st: "length (af_gain st) = N" "br_expr env n = Inr (phase_shift_br st)"
  shows "\<exists>ru. afgain_iter env n pos_dist pos_versor i st =
           Inr (st\<lparr>af_gain := take (i * n) (af_gain st)
                               @ map (point_gain env)
                                   (slice (i * n) ((i + 1) * n) (zip pos_dist pos_versor))
                               @ drop ((i + 1) * n) (af_gain st),
                   phase_shift_ru := Some ru\<rparr>)"
proof -
  let ?ds = "slice (i * n) ((i + 1) * n) pos_dist"
  let ?vs = "slice (i * n) ((i + 1) * n) pos_versor"
  from i have in_le: "i * n + n \<le> N" by simp
  with len have l: "length ?ds = n" "length ?vs = n"
    by (simp_all add: slice_def)
  have z: "zip ?ds ?vs = slice (i * n) ((i + 1) * n) (zip pos_dist pos_versor)"
    by (simp add: slice_def take_zip drop_zip)
  from batch_gain[OF sh rb l st(2)] obtain ru G where ru: "ru_expr env ?ds ?vs n = Inr ru"
    and g: "gain_expr env ru (phase_shift_br st) = Inr ((1, n), G)"
    and pw: "\<forall>k < n. G 0 k = point_gain env (?ds ! k, ?vs ! k)"
    by blast
  have m: "min ((i + 1) * n) (length (af_gain st)) - i * n = n"
    using in_le st(1) by simp
  have as: "assign_slice (af_gain st) (i * n) ((i + 1) * n) ((1, n), G)
      = Inr (take (i * n) (af_gain st) @ map (point_gain env) (zip ?ds ?vs)
             @ drop (i * n + n) (af_gain st))"
    using m l pw by (rule assign_batch)
  have "afgain_iter env n pos_dist pos_versor i st =
      Inr (st\<lparr>af_gain := take (i * n) (af_gain st) @ map (point_gain env) (zip ?ds ?vs)
                          @ drop (i * n + n) (af_gain st),
              phase_shift_ru := Some ru\<rparr>)"
    by (simp only: afgain_iter_def ru g as sum.case)
  then show ?thesis
    unfolding z by (intro exI[of _ ru]) (simp add: add.commute)
qed

lemma afgain_loop:
  assumes sh: "env_shapes env" and rb: "RBs env = 1"
    and len: "length pos_dist = N" "length pos_versor = N"
    and br: "br_expr env n = Inr br"
    and k: "k * n \<le> N"
  shows "\<exists>ru. for_each (afgain_iter env n pos_dist pos_versor) [0..<k]
             \<lparr>af_gain = replicate N 0, phase_shift_ru = None, phase_shift_br = br\<rparr>
           = Inr \<lparr>af_gain = map (point_gain env) (take (k * n) (zip pos_dist pos_versor))
                             @ replicate (N - k * n) 0,
                  phase_shift_ru = ru, phase_shift_br = br\<rparr>
           \<and> (ru = None \<longleftrightarrow> k = 0)"
  using k
proof (induction k)
  case 0
  then show ?case by simp
next
  case (Suc k)
  let ?dvs = "zip pos_dist pos_versor"
  let ?st1 = "\<lambda>ru. \<lparr>af_gain = map (point_gain env) (take (k * n) ?dvs) @ replicate (N - k * n) 0,
                  phase_shift_ru = ru, phase_shift_br = br\<rparr>"
  from Suc.prems have kn: "k * n \<le> N" "(k + 1) * n \<le> N" "k * n + n \<le> N" by simp_all
  from Suc.IH[OF kn(1)] obtain ru1 where
    run1: "for_each (afgain_iter env n pos_dist pos_versor) [0..<k]
             \<lparr>af_gain = replicate N 0, phase_shift_ru = None, phase_shift_br = br\<rparr>
           = Inr (?st1 ru1)"
    by blast
  have ld: "length ?dvs = N" using len by simp
  have l1: "length (af_gain (?st1 ru1)) = N"
    using kn(1) ld by simp
  have b1: "br_expr env n = Inr (phase_shift_br (?st1 ru1))"
    using br by simp
  from afgain_iter_eq[OF sh rb len kn(2) l1 b1] obtain ru2 where
    step: "afgain_iter env n pos_dist pos_versor k (?st1 ru1) =
      Inr ((?st1 ru1)\<lparr>af_gain := take (k * n) (af_gain (?st1 ru1))
                               @ map (point_gain env) (slice (k * n) ((k + 1) * n) ?dvs)
                               @ drop ((k + 1) * n) (af_gain (?st1 ru1)),
                   phase_shift_ru := Some ru2\<rparr>)"
    by auto
  have t: "take (k * n) (af_gain (?st1 ru1)) = map (point_gain env) (take (k * n) ?dvs)"
    using kn(1) ld by simp
  have d: "drop ((k + 1) * n) (af_gain (?st1 ru1)) = replicate (N - Suc k * n) 0"
    using kn ld by (simp add: add.commute)
  have s: "map (point_gain env) (take (k * n) ?dvs)
             @ map (point_gain env) (slice (k * n) ((k + 1) * n) ?dvs)
           = map (point_gain env) (take (Suc k * n) ?dvs)"
  proof -
    have "take (Suc k * n) ?dvs = take (k * n + n) ?dvs" by (simp add: add.commute)
    also have "\<dots> = take (k * n) ?dvs @ take n (drop (k * n) ?dvs)" by (rule take_add)
    finally show ?thesis by (simp add: slice_def)
  qed
  then have s': "\<And>R. map (point_gain env) (take (k * n) ?dvs)
             @ map (point_gain env) (slice (k * n) (n + k * n) ?dvs) @ R
           = map (point_gain env) (take (n + k * n) ?dvs) @ R"
    by (metis append_assoc mult_Suc Suc_eq_plus1)
  have "for_each (afgain_iter env n pos_dist pos_versor) [0..<Suc k]
             \<lparr>af_gain = replicate N 0, phase_shift_ru = None, phase_shift_br = br\<rparr>
      = Inr \<lparr>af_gain = map (point_gain env) (take (Suc k * n) ?dvs)
                             @ replicate (N - Suc k * n) 0,
                  phase_shift_ru = Some ru2, phase_shift_br = br\<rparr>"
    unfolding upt_Suc_append[OF le0] for_each_append run1
    by (simp only: sum.case for_each.simps step t d) (simp add: s')
  then show ?case by (intro exI[of _ "Some ru2"]) simp
qed

lemma afgain_rest_eq:
  assumes sh: "env_shapes env" and rb: "RBs env = 1"
    and len: "length pos_dist = N" "length pos_versor = N"
  shows "\<exists>ru br. afgain_rest env n (N div n) pos_dist pos_versor
             \<lparr>af_gain = map (point_gain env) (take (N div n * n) (zip pos_dist pos_versor))
                             @ replicate (N - N div n * n) 0,
              phase_shift_ru = ru0, phase_shift_br = br0\<rparr>
           = Inr \<lparr>af_gain = map (point_gain env) (zip pos_dist pos_versor),
                  phase_shift_ru = ru, phase_shift_br = br\<rparr>
           \<and> (ru = None \<longleftrightarrow> ru0 = None \<and> N = N div n * n)"
proof (cases "0 < N - N div n * n")
  case False
  have "N div n * n \<le> N" by simp
  with False have e: "N div n * n = N" by simp
  have "afgain_rest env n (N div n) pos_dist pos_versor
             \<lparr>af_gain = map (point_gain env) (take (N div n * n) (zip pos_dist pos_versor))
                             @ replicate (N - N div n * n) 0,
              phase_shift_ru = ru0, phase_shift_br = br0\<rparr>
      = Inr \<lparr>af_gain = map (point_gain env) (zip pos_dist pos_versor),
                  phase_shift_ru = ru0, phase_shift_br = br0\<rparr>"
    unfolding afgain_rest_def Let_def len(1) e using len by simp
  then show ?thesis
    using e by (intro exI[of _ ru0] exI[of _ br0]) simp
next
  case True
  let ?m = "N div n * n"
  let ?dvs = "zip pos_dist pos_versor"
  let ?af = "map (point_gain env) (take ?m ?dvs) @ replicate (N - ?m) 0"
  let ?ds = "drop ?m pos_dist" and ?vs = "drop ?m pos_versor"
  from True have lt: "?m < N" by simp
  have l: "length ?ds = N - ?m" "length ?vs = N - ?m"
    using len by simp_all
  have z: "zip ?ds ?vs = drop ?m ?dvs" by (simp add: drop_zip)
  from sh have "length (freqs env) = RBs env" by (simp add: env_shapes_def)
  from br_expr_ok[OF this] obtain br where br: "br_expr env (N - ?m) = Inr br"
    by blast
  from batch_gain[OF sh rb l br] obtain ru G where ru: "ru_expr env ?ds ?vs (N - ?m) = Inr ru"
    and g: "gain_expr env ru br = Inr ((1, N - ?m), G)"
    and pw: "\<forall>k < N - ?m. G 0 k = point_gain env (?ds ! k, ?vs ! k)"
    by blast
  have laf: "length ?af = N" using lt len by simp
  have m: "min (length ?af) (length ?af) - ?m = N - ?m"
    unfolding laf by simp
  have "assign_slice ?af ?m (length ?af) ((1, N - ?m), G)
      = Inr (take ?m ?af @ map (point_gain env) (zip ?ds ?vs) @ drop (?m + (N - ?m)) ?af)"
    using m l pw by (rule assign_batch)
  also have "take ?m ?af = map (point_gain env) (take ?m ?dvs)"
    using lt len by simp
  also have "drop (?m + (N - ?m)) ?af = []"
    using lt laf by simp
  also have "map (point_gain env) (take ?m ?dvs) @ map (point_gain env) (zip ?ds ?vs) @ []
      = map (point_gain env) ?dvs"
    unfolding z by (simp flip: map_append)
  finally have as: "assign_slice ?af ?m (length ?af) ((1, N - ?m), G)
      = Inr (map (point_gain env) ?dvs)" .
  have "afgain_rest env n (N div n) pos_dist pos_versor
             \<lparr>af_gain = ?af, phase_shift_ru = ru0, phase_shift_br = br0\<rparr>
      = Inr \<lparr>af_gain = map (point_gain env) ?dvs,
                  phase_shift_ru = Some ru, phase_shift_br = br\<rparr>"
    unfolding afgain_rest_def Let_def len(1) afgain_state.simps
    by (simp only: True if_True ru br g as sum.case afgain_state.simps)
  moreover have "N \<noteq> N div n * n" using lt by simp
  ultimately show ?thesis
    by (intro exI[of _ "Some ru"] exI[of _ br]) simp
qed

lemma afgain_chunked_eq:
  assumes sh: "env_shapes env" and rb: "RBs env = 1"
  shows "afgain_chunked n env x =
     (if x = [] then Inl UnboundLocalError
      else Inr (map (point_gain env)
             (zip (map norm3 x) (map2 (\<lambda>(a, b, c) d. (a / d, b / d, c / d)) x (map norm3 x)))))"
proof -
  define N where "N = length x"
  define pd where "pd = map norm3 x"
  define pv where "pv = map2 (\<lambda>(a, b, c) d. (a / d, b / d, c / d)) x pd"
  have len: "length pd = N" "length pv = N" by (simp_all add: pd_def pv_def N_def)
  have k: "N div n * n \<le> N" by simp
  from sh have "length (freqs env) = RBs env" by (simp add: env_shapes_def)
  from br_expr_ok[OF this] obtain br where br: "br_expr env n = Inr br"
    by blast
  from afgain_loop[OF sh rb len br k] obtain ru1 where
    loop: "for_each (afgain_iter env n pd pv) [0..<N div n]
             \<lparr>af_gain = replicate N 0, phase_shift_ru = None, phase_shift_br = br\<rparr>
           = Inr \<lparr>af_gain = map (point_gain env) (take (N div n * n) (zip pd pv))
                             @ replicate (N - N div n * n) 0,
                  phase_shift_ru = ru1, phase_shift_br = br\<rparr>"
    and r1: "ru1 = None \<longleftrightarrow> N div n = 0"
    by (elim exE conjE)
  from afgain_rest_eq[OF sh rb len, of n ru1 br] obtain ru2 br2 where
    rest: "afgain_rest env n (N div n) pd pv
             \<lparr>af_gain = map (point_gain env) (take (N div n * n) (zip pd pv))
                             @ replicate (N - N div n * n) 0,
              phase_shift_ru = ru1, phase_shift_br = br\<rparr>
           = Inr \<lparr>af_gain = map (point_gain env) (zip pd pv),
                  phase_shift_ru = ru2, phase_shift_br = br2\<rparr>"
    and r2: "ru2 = None \<longleftrightarrow> ru1 = None \<and> N = N div n * n"
    by (elim exE conjE)
  have "N div n = 0 \<and> N = N div n * n \<longleftrightarrow> N = 0"
    by (cases "N = 0") auto
  with r1 r2 have none: "ru2 = None \<longleftrightarrow> x = []"
    by (simp add: N_def)
  have "afgain_chunked n env x =
      (case br_expr env n of
           Inl e \<Rightarrow> Inl e
         | Inr br \<Rightarrow>
      (case for_each (afgain_iter env n pd pv) [0..<N div n]
              \<lparr>af_gain = replicate N 0, phase_shift_ru = None, phase_shift_br = br\<rparr> of
           Inl e \<Rightarrow> Inl e
         | Inr st1 \<Rightarrow>
             (case afgain_rest env n (N div n) pd pv st1 of
                Inl e \<Rightarrow> Inl e
              | Inr st2 \<Rightarrow>
                  (case phase_shift_ru st2 of
                     None \<Rightarrow> Inl UnboundLocalError
                   | Some ru \<Rightarrow> Inr (af_gain st2)))))"
    unfolding afgain_chunked_def Let_def N_def pd_def pv_def ..
  also have "\<dots> = (case ru2 of None \<Rightarrow> Inl UnboundLocalError
       | Some ru \<Rightarrow> Inr (map (point_gain env) (zip pd pv)))"
    by (simp only: br loop sum.case rest afgain_state.simps)
  finally show ?thesis
    using none unfolding pd_def pv_def by (cases ru2) auto
qed

lemma afgain_one_batch_eq:
  assumes sh: "env_shapes env" and rb: "RBs env = 1"
  shows "afgain_one_batch env x =
     Inr (map (point_gain env)
            (zip (map norm3 x) (map2 (\<lambda>(a, b, c) d. (a / d, b / d, c / d)) x (map norm3 x))))"
proof -
  define N where "N = length x"
  define pd where "pd = map norm3 x"
  define pv where "pv = map2 (\<lambda>(a, b, c) d. (a / d, b / d, c / d)) x pd"
  have len: "length pd = N" "length pv = N" by (simp_all add: pd_def pv_def N_def)
  from sh have "length (freqs env) = RBs env" by (simp add: env_shapes_def)
  from br_expr_ok[OF this] obtain br where br: "br_expr env N = Inr br"
    by blast
  from batch_gain[OF sh rb len br] obtain ru G where ru: "ru_expr env pd pv N = Inr ru"
    and g: "gain_expr env ru br = Inr ((1, N), G)"
    and pw: "\<forall>k < N. G 0 k = point_gain env (pd ! k, pv ! k)"
    by (elim exE conjE)
  have m: "min N (length (replicate N (0::real))) - 0 = N" by simp
  have "assign_slice (replicate N 0) 0 N ((1, N), G)
      = Inr (take 0 (replicate N 0) @ map (point_gain env) (zip pd pv)
             @ drop (0 + N) (replicate N 0))"
    using m len pw by (rule assign_batch)
  then have as: "assign_slice (replicate N 0) 0 N ((1, N), G)
      = Inr (map (point_gain env) (zip pd pv))"
    by simp
  have "afgain_one_batch env x =
      (case ru_expr env pd pv N of
           Inl e \<Rightarrow> Inl e
         | Inr ru \<Rightarrow>
             (case br_expr env N of
                Inl e \<Rightarrow> Inl e
              | Inr br \<Rightarrow>
             (case gain_expr env ru br of
                Inl e \<Rightarrow> Inl e
              | Inr G \<Rightarrow> assign_slice (replicate N 0) 0 N G)))"
    unfolding afgain_one_batch_def Let_def N_def pd_def pv_def ..
  also have "\<dots> = Inr (map (point_gain env) (zip pd pv))"
    by (simp only: ru br g as sum.case)
  finally show ?thesis
    unfolding pd_def pv_def .
qed


lemma batch_fails:
  assumes sh: "env_shapes env" and rb: "RBs env \<noteq> 1"
    and len: "length dists = w" "length versors = w"
    and br: "br_expr env w = Inr br"
  shows "(case ru_expr env dists versors w of
            Inl e \<Rightarrow> Inl e
          | Inr ru \<Rightarrow>
              (case gain_expr env ru br of
                 Inl e \<Rightarrow> Inl e
               | Inr G \<Rightarrow> assign_slice af lo hi G)) = Inl ValueError"
proof -
  from sh have F: "length (freqs env) = RBs env"
    and E: "length (el_pos (ris env)) = num_els (ris env)"
    and C: "length (actual_conf (ris env)) = num_els (ris env)"
    by (simp_all add: env_shapes_def)
  from br obtain B where br': "br = ((num_els (ris env), RBs env, w), B)"
    by (auto simp: br_expr_def freqs_col_def row_of_def F E bdim_same bdim_one_left
        bdim_one_right)
  show ?thesis
    unfolding br' using rb
    by (simp add: ru_expr_def gain_expr_def freqs_col_def row_of_def F E C len bdim_same
        bdim_one_left bdim_one_right Let_def)
qed


lemma afgain_iter_fails:
  assumes sh: "env_shapes env" and rb: "RBs env \<noteq> 1"
    and len: "length pos_dist = N" "length pos_versor = N"
    and i: "(i + 1) * n \<le> N"
    and st: "br_expr env n = Inr (phase_shift_br st)"
  shows "afgain_iter env n pos_dist pos_versor i st = Inl ValueError"
proof -
  from i have "i * n + n \<le> N" by simp
  with len have l: "length (slice (i * n) ((i + 1) * n) pos_dist) = n"
    "length (slice (i * n) ((i + 1) * n) pos_versor) = n"
    by (simp_all add: slice_def)
  from batch_fails[OF sh rb l st, of "af_gain st" "i * n" "(i + 1) * n"]
  show ?thesis
    by (auto simp: afgain_iter_def split: sum.splits)
qed

lemma afgain_rest_fails:
  assumes sh: "env_shapes env" and rb: "RBs env \<noteq> 1"
    and len: "length pos_dist = N" "length pos_versor = N"
    and n2: "iter * n < N"
  shows "afgain_rest env n iter pos_dist pos_versor st = Inl ValueError"
proof -
  have l: "length (drop (iter * n) pos_dist) = N - iter * n"
    "length (drop (iter * n) pos_versor) = N - iter * n"
    using len by simp_all
  from sh have "length (freqs env) = RBs env" by (simp add: env_shapes_def)
  from br_expr_ok[OF this] obtain br where br: "br_expr env (N - iter * n) = Inr br"
    by blast
  from batch_fails[OF sh rb l br, of "af_gain st" "iter * n" "length (af_gain st)"] n2
  show ?thesis
    by (auto simp: afgain_rest_def Let_def len br split: sum.splits)
qed

lemma afgain_chunked_fails:
  assumes sh: "env_shapes env" and rb: "RBs env \<noteq> 1" and x: "x \<noteq> []" and n: "0 < n"
  shows "afgain_chunked n env x = Inl ValueError"
proof -
  define N where "N = length x"
  define pd where "pd = map norm3 x"
  define pv where "pv = map2 (\<lambda>(a, b, c) d. (a / d, b / d, c / d)) x pd"
  have len: "length pd = N" "length pv = N" by (simp_all add: pd_def pv_def N_def)
  from x have N: "0 < N" by (simp add: N_def)
  from sh have "length (freqs env) = RBs env" by (simp add: env_shapes_def)
  from br_expr_ok[OF this] obtain br where br: "br_expr env n = Inr br"
    by blast
  let ?st0 = "\<lparr>af_gain = replicate N 0, phase_shift_ru = None, phase_shift_br = br\<rparr>"
  have unf: "afgain_chunked n env x =
      (case for_each (afgain_iter env n pd pv) [0..<N div n] ?st0 of
           Inl e \<Rightarrow> Inl e
         | Inr st1 \<Rightarrow>
             (case afgain_rest env n (N div n) pd pv st1 of
                Inl e \<Rightarrow> Inl e
              | Inr st2 \<Rightarrow>
                  (case phase_shift_ru st2 of
                     None \<Rightarrow> Inl UnboundLocalError
                   | Some ru \<Rightarrow> Inr (af_gain st2))))"
    unfolding afgain_chunked_def Let_def N_def pd_def pv_def br by simp
  show ?thesis
  proof (cases "N div n = 0")
    case True
    then have "N div n * n < N" using N by simp
    from afgain_rest_fails[OF sh rb len this]
    show ?thesis unfolding unf by (simp add: True)
  next
    case False
    then have "n \<le> N" using n by (simp add: div_eq_0_iff not_less)
    then have one: "(0 + 1) * n \<le> N" by simp
    have b0: "br_expr env n = Inr (phase_shift_br ?st0)" using br by simp
    from False have "[0..<N div n] = 0 # [1..<N div n]"
      by (simp add: upt_rec)
    with afgain_iter_fails[OF sh rb len one b0]
    have "for_each (afgain_iter env n pd pv) [0..<N div n] ?st0 = Inl ValueError"
      by simp
    then show ?thesis unfolding unf by simp
  qed
qed

lemma afgain_one_batch_fails:
  assumes sh: "env_shapes env" and rb: "RBs env \<noteq> 1"
  shows "afgain_one_batch env x = Inl ValueError"
proof -
  define N where "N = length x"
  define pd where "pd = map norm3 x"
  define pv where "pv = map2 (\<lambda>(a, b, c) d. (a / d, b / d, c / d)) x pd"
  have len: "length pd = N" "length pv = N" by (simp_all add: pd_def pv_def N_def)
  from sh have "length (freqs env) = RBs env" by (simp add: env_shapes_def)
  from br_expr_ok[OF this] obtain br where br: "br_expr env N = Inr br"
    by blast
  have "afgain_one_batch env x =
      (case ru_expr env pd pv N of
           Inl e \<Rightarrow> Inl e
         | Inr ru \<Rightarrow>
             (case br_expr env N of
                Inl e \<Rightarrow> Inl e
              | Inr br \<Rightarrow>
                  (case gain_expr env ru br of
                     Inl e \<Rightarrow> Inl e
                   | Inr G \<Rightarrow> assign_slice (replicate N 0) 0 N G)))"
    unfolding afgain_one_batch_def Let_def N_def pd_def pv_def ..
  also have "\<dots> =
      (case ru_expr env pd pv N of
           Inl e \<Rightarrow> Inl e
         | Inr ru \<Rightarrow>
             (case gain_expr env ru br of
                Inl e \<Rightarrow> Inl e
              | Inr G \<Rightarrow> assign_slice (replicate N 0) 0 N G))"
    by (simp only: br sum.case)
  also have "\<dots> = Inl ValueError"
    using sh rb len br by (rule batch_fails)
  finally show ?thesis .
qed

lemma env_shapes_env0: "env_shapes env0"
  by (simp add: env_shapes_def env0_def)

text \<open>
  The example environment has a single element with weight 1, so every gain is 1.
\<close>

lemma compute_afgain_env0: "compute_afgain env0 [(3, 4, 0), (1, 0, 0)] = Inr [1, 1]"
proof -
  have rb: "RBs env0 = 1" by (simp add: env0_def)
  have "compute_afgain env0 [(3, 4, 0), (1, 0, 0)] =
     Inr (map (point_gain env0) (zip (map norm3 [(3, 4, 0), (1, 0, 0)])
        (map2 (\<lambda>(a, b, c) d. (a / d, b / d, c / d)) [(3, 4, 0), (1, 0, 0)]
        (map norm3 [(3, 4, 0), (1, 0, 0)]))))"
    using afgain_chunked_eq[OF env_shapes_env0 rb, of 1000000 "[(3, 4, 0), (1, 0, 0)]"]
    by (simp add: compute_afgain_def)
  moreover have "\<And>dv. point_gain env0 dv = 1"
    by (simp add: point_gain_def env0_def)
  ultimately show ?thesis by simp
qed

text \<open>
  The partition in exact arithmetic. For every environment with the shapes of the library
  and every array of at least one point, the chunked evaluation and the evaluation in one
  batch give the same result, for every positive chunk size: the same array of gains with
  one resource block, the same \<^verbatim>\<open>ValueError\<close> with any other number. This is a
  statement about real and complex numbers; whether the floating-point arrays of two
  partitions agree to the last bit is outside the model.
\<close>

lemma afgain_partition_exact:
  assumes "env_shapes env" "x \<noteq> []" "0 < n"
  shows "afgain_chunked n env x = afgain_one_batch env x"
proof (cases "RBs env = 1")
  case True
  with assms show ?thesis
    by (simp add: afgain_chunked_eq afgain_one_batch_eq)
next
  case False
  with assms show ?thesis
    by (simp add: afgain_chunked_fails afgain_one_batch_fails)
qed

text \<open>
  With the shapes of the library and any number of resource blocks other than one, every
  non-empty input raises \<^verbatim>\<open>ValueError\<close>: the array assigned at lines 179 and 185 has
  one row per resource block and does not fit the slice of \<^verbatim>\<open>af_gain\<close>.
\<close>

lemma compute_afgain_needs_one_block:
  assumes "env_shapes env" "RBs env \<noteq> 1" "x \<noteq> []"
  shows "compute_afgain env x = Inl ValueError"
  using assms by (simp add: compute_afgain_def afgain_chunked_fails)

lemma compute_afgain_empty:
  "compute_afgain env [] =
     (if bdim (length (freqs env)) (RBs env) = None then Inl ValueError
      else Inl UnboundLocalError)"
  by (simp add: compute_afgain_def afgain_chunked_def afgain_rest_def br_expr_def
      freqs_col_def row_of_def Let_def bdim_one_left split: option.splits)

text \<open>
  Claim C10, amended. On an array of zero points \<open>compute_afgain\<close> raises an error in every
  environment; with the shapes of the library the error is the \<^verbatim>\<open>UnboundLocalError\<close> of
  line 186, which deletes \<^verbatim>\<open>phase_shift_ru\<close> although the loop ran no iteration and the
  branch for the partial chunk was skipped. On every array of at least one point, in an
  environment of one resource block (the default \<^verbatim>\<open>rbs = 1\<close> of the constructor), it
  returns an array with one gain per point.
\<close>

theorem compute_afgain_empty_raises:
  "(\<exists>e. compute_afgain env [] = Inl e) \<and>
   (env_shapes env \<longrightarrow>
      compute_afgain env [] = Inl UnboundLocalError \<and>
      (RBs env = 1 \<longrightarrow> x \<noteq> [] \<longrightarrow>
         (\<exists>g. compute_afgain env x = Inr g \<and> length g = length x)))"
proof (intro conjI impI)
  show "\<exists>e. compute_afgain env [] = Inl e"
    by (simp add: compute_afgain_empty)
next
  assume "env_shapes env"
  then have "bdim (length (freqs env)) (RBs env) = Some (RBs env)"
    by (simp add: env_shapes_def bdim_same)
  then show "compute_afgain env [] = Inl UnboundLocalError"
    by (simp add: compute_afgain_empty)
next
  assume "env_shapes env" "RBs env = 1" "x \<noteq> []"
  then show "\<exists>g. compute_afgain env x = Inr g \<and> length g = length x"
    by (simp add: compute_afgain_def afgain_chunked_eq)
qed

text \<open>An instance: no point, and two points, in the example environment.\<close>

theorem compute_afgain_empty_raises_witness:
  "compute_afgain env0 [] = Inl UnboundLocalError \<and>
   (\<exists>g. compute_afgain env0 [(3, 4, 0), (1, 0, 0)] = Inr g \<and> length g = 2)"
proof -
  have "RBs env0 = 1" by (simp add: env0_def)
  with compute_afgain_empty_raises[of env0 "[(3, 4, 0), (1, 0, 0)]"] env_shapes_env0
  show ?thesis by (auto simp: numeral_2_eq_2)
qed

text \<open>
  Claim C10 as stated fails: the example environment with two resource blocks and their two
  frequencies has the shapes of the library, and on one point \<open>compute_afgain\<close> raises
  \<^verbatim>\<open>ValueError\<close> instead of returning an array.
\<close>

theorem compute_afgain_two_blocks_raises:
  "env_shapes (env0\<lparr>freqs := [1, 2], RBs := 2\<rparr>) \<and>
   compute_afgain (env0\<lparr>freqs := [1, 2], RBs := 2\<rparr>) [(3, 4, 0)] = Inl ValueError"
  by (simp add: compute_afgain_def afgain_chunked_def afgain_rest_def br_expr_def ru_expr_def
      gain_expr_def freqs_col_def row_of_def env_shapes_def env0_def bdim_def Let_def)

subsection \<open>The pilot noise\<close>

text \<open>
  The deterministic part of the noise term: the real and imaginary parts of the added noise
  are those of the draw multiplied by a factor whose square is
  \<open>noise_power / (2 * num_pilots)\<close>.
\<close>

lemma bsw_noise_scaling:
  assumes "0 \<le> noise_power"
  shows "Re (bsw_noise noise_power num_pilots noise)
           = sqrt (noise_power / (2 * real num_pilots)) * Re noise"
    and "Im (bsw_noise noise_power num_pilots noise)
           = sqrt (noise_power / (2 * real num_pilots)) * Im noise"
    and "(sqrt (noise_power / (2 * real num_pilots)))\<^sup>2 = noise_power / (2 * real num_pilots)"
proof -
  have v: "var noise_power num_pilots = noise_power / (2 * real num_pilots)"
    by (simp add: var_def)
  show "Re (bsw_noise noise_power num_pilots noise)
           = sqrt (noise_power / (2 * real num_pilots)) * Re noise"
    and "Im (bsw_noise noise_power num_pilots noise)
           = sqrt (noise_power / (2 * real num_pilots)) * Im noise"
    by (simp_all add: bsw_noise_def v)
  show "(sqrt (noise_power / (2 * real num_pilots)))\<^sup>2 = noise_power / (2 * real num_pilots)"
    using assms by simp
qed

end
